theory Spec2Isabelle
  imports Complex_Main "HOL-Library.Char_ord" "HOL-Library.List_Lexorder"
begin

section \<open>Python strings\<close>

text \<open>
  A Python \<^verbatim>\<open>str\<close> is modelled as a \<^typ>\<open>string\<close> whose characters are the
  code points U+0000 to U+00FF.  The functions below are the built-in string operations the
  repository calls, restricted to that range.
\<close>

definition py_lower_char :: "char \<Rightarrow> char" where
  "py_lower_char c =
     (let n = (of_char c :: nat)
      in if (65 \<le> n \<and> n \<le> 90) \<or> (192 \<le> n \<and> n \<le> 222 \<and> n \<noteq> 215)
         then char_of (n + 32) else c)"

definition lower :: "string \<Rightarrow> string" where
  \<comment> \<open>\<^verbatim>\<open>str.lower()\<close>\<close>
  "lower s = map py_lower_char s"

definition is_space :: "char \<Rightarrow> bool" where
  \<comment> \<open>the characters \<^verbatim>\<open>str.strip()\<close> removes\<close>
  "is_space c = (let n = (of_char c :: nat)
                 in (9 \<le> n \<and> n \<le> 13) \<or> (28 \<le> n \<and> n \<le> 32) \<or> n = 133 \<or> n = 160)"

definition is_num_space :: "char \<Rightarrow> bool" where
  \<comment> \<open>the characters \<^verbatim>\<open>int()\<close> and \<^verbatim>\<open>float()\<close> skip around a literal\<close>
  "is_num_space c = (let n = (of_char c :: nat)
                     in (9 \<le> n \<and> n \<le> 13) \<or> n = 32 \<or> n = 133 \<or> n = 160)"

definition strip_with :: "(char \<Rightarrow> bool) \<Rightarrow> string \<Rightarrow> string" where
  "strip_with p s = rev (dropWhile p (rev (dropWhile p s)))"

definition strip :: "string \<Rightarrow> string" where
  \<comment> \<open>\<^verbatim>\<open>str.strip()\<close>\<close>
  "strip s = strip_with is_space s"

fun find_from :: "nat \<Rightarrow> char \<Rightarrow> string \<Rightarrow> nat option" where
  "find_from i c [] = None"
| "find_from i c (x # xs) = (if x = c then Some i else find_from (Suc i) c xs)"

definition find_char :: "string \<Rightarrow> char \<Rightarrow> nat option" where
  \<comment> \<open>\<^verbatim>\<open>s.find(c)\<close>: the first index of \<open>c\<close>; \<open>None\<close> stands for Python's \<open>-1\<close>\<close>
  "find_char s c = find_from 0 c s"

fun join :: "string \<Rightarrow> string list \<Rightarrow> string" where
  \<comment> \<open>\<^verbatim>\<open>sep.join(xs)\<close>\<close>
  "join sep [] = []"
| "join sep [x] = x"
| "join sep (x # y # ys) = x @ sep @ join sep (y # ys)"

definition sorted_strs :: "string list \<Rightarrow> string list" where
  \<comment> \<open>\<^verbatim>\<open>sorted(xs)\<close> on strings: code point order\<close>
  "sorted_strs xs = sort xs"

definition quoted :: "string \<Rightarrow> string" where
  \<comment> \<open>\<^verbatim>\<open>'{s}'\<close> inside an f-string: the text between two apostrophes\<close>
  "quoted s = [CHR 0x27] @ s @ [CHR 0x27]"

section \<open>Python integers\<close>

definition digit_char :: "int \<Rightarrow> char" where
  "digit_char d = char_of (48 + d)"

definition is_digit :: "char \<Rightarrow> bool" where
  "is_digit c = (let n = (of_char c :: nat) in 48 \<le> n \<and> n \<le> 57)"

definition digit_val :: "char \<Rightarrow> int" where
  "digit_val c = of_char c - 48"

text \<open>
  Numbers that can be large are integers rather than naturals, also where they are never
  negative: numerals of type \<^typ>\<open>int\<close> evaluate in binary.
\<close>

function nat_digits :: "int \<Rightarrow> string" where
  \<comment> \<open>the decimal digits of a number that is not negative\<close>
  "nat_digits n = (if n < 10 then [digit_char n] else nat_digits (n div 10) @ [digit_char (n mod 10)])"
  by pat_completeness auto
termination
  by (relation "measure nat") auto

declare nat_digits.simps [simp del]

definition int_str :: "int \<Rightarrow> string" where
  \<comment> \<open>\<^verbatim>\<open>str(i)\<close> for an \<^verbatim>\<open>int\<close>\<close>
  "int_str i = (if i < 0 then CHR ''-'' # nat_digits (- i) else nat_digits i)"

definition digits_val :: "string \<Rightarrow> int" where
  "digits_val ds = foldl (\<lambda>acc c. 10 * acc + digit_val c) 0 ds"

fun underscores_ok :: "char \<Rightarrow> string \<Rightarrow> bool" where
  \<comment> \<open>every underscore stands between two digits; the first argument is the previous character\<close>
  "underscores_ok prev [] = (prev \<noteq> CHR ''_'')"
| "underscores_ok prev (c # cs) =
     (if c = CHR ''_'' then is_digit prev \<and> underscores_ok c cs
      else (if prev = CHR ''_'' then is_digit c else True) \<and> underscores_ok c cs)"

definition drop_underscores :: "string \<Rightarrow> string option" where
  "drop_underscores s =
     (if underscores_ok (CHR 0x00) s then Some (filter (\<lambda>c. c \<noteq> CHR ''_'') s) else None)"

definition split_sign :: "string \<Rightarrow> bool \<times> string" where
  \<comment> \<open>an optional leading sign; the flag says the literal is negative\<close>
  "split_sign s = (case s of
       c # cs \<Rightarrow> if c = CHR ''-'' then (True, cs) else if c = CHR ''+'' then (False, cs) else (False, s)
     | [] \<Rightarrow> (False, []))"

definition int_max_str_digits :: nat where
  \<comment> \<open>the default of \<^verbatim>\<open>sys.get_int_max_str_digits()\<close>\<close>
  "int_max_str_digits = 4300"

definition py_int :: "string \<Rightarrow> int option" where
  \<comment> \<open>\<^verbatim>\<open>int(s)\<close> for a string; \<open>None\<close> is the \<^verbatim>\<open>ValueError\<close>\<close>
  "py_int s =
     (let (neg, body) = split_sign (strip_with is_num_space s)
      in case drop_underscores body of
           None \<Rightarrow> None
         | Some ds \<Rightarrow>
             if ds = [] \<or> \<not> list_all is_digit ds \<or> int_max_str_digits < length ds then None
             else Some (if neg then - digits_val ds else digits_val ds))"

section \<open>Python floats\<close>

text \<open>
  A Python \<^verbatim>\<open>float\<close> is an IEEE 754 binary64 number.  A finite one is kept as sign,
  mantissa and binary exponent, standing for \<open>\<plusminus> m * 2 ^ e\<close>, with \<open>m\<close> odd (or \<open>m = 0\<close>
  and \<open>e = 0\<close>), so that equal numbers are equal terms.  Conversions from and to decimal text
  are correctly rounded (to nearest, ties to even), as CPython's are.  Rationals that are not
  negative are passed around as pairs (numerator, denominator).
\<close>

datatype double = Finite bool int int | Infinite bool | NaN

function bit_length :: "int \<Rightarrow> nat" where
  "bit_length n = (if n \<le> 0 then 0 else Suc (bit_length (n div 2)))"
  by pat_completeness auto
termination
  by (relation "measure nat") auto

declare bit_length.simps [simp del]

definition scale :: "int \<Rightarrow> int \<Rightarrow> int \<times> int \<Rightarrow> int \<times> int" where
  \<comment> \<open>the fraction times \<open>b ^ k\<close>\<close>
  "scale b k q = (if 0 \<le> k then (fst q * b ^ nat k, snd q) else (fst q, snd q * b ^ nat (- k)))"

definition frac_le :: "int \<times> int \<Rightarrow> int \<times> int \<Rightarrow> bool" where
  "frac_le p q = (fst p * snd q \<le> fst q * snd p)"

definition floor_log2 :: "int \<times> int \<Rightarrow> int" where
  \<comment> \<open>the largest \<open>e\<close> with \<open>2 ^ e \<le> q\<close>, for \<open>q > 0\<close>\<close>
  "floor_log2 q =
     (let e0 = int (bit_length (fst q)) - int (bit_length (snd q))
      in if frac_le (scale 2 e0 (1, 1)) q then e0 else e0 - 1)"

definition floor_log10 :: "int \<times> int \<Rightarrow> int" where
  \<comment> \<open>the largest \<open>x\<close> with \<open>10 ^ x \<le> q\<close>, for \<open>q > 0\<close>\<close>
  "floor_log10 q =
     (let x0 = int (length (nat_digits (fst q))) - int (length (nat_digits (snd q)))
      in if frac_le (scale 10 x0 (1, 1)) q then x0 else x0 - 1)"

definition round_half_even :: "int \<times> int \<Rightarrow> int" where
  "round_half_even q =
     (let n = fst q div snd q; r = fst q mod snd q
      in if 2 * r < snd q then n
         else if snd q < 2 * r then n + 1
         else if even n then n else n + 1)"

function normalize_mant :: "int \<Rightarrow> int \<Rightarrow> int \<times> int" where
  "normalize_mant m e =
     (if m = 0 then (0, 0) else if even m then normalize_mant (m div 2) (e + 1) else (m, e))"
  by pat_completeness auto
termination
  by (relation "measure (\<lambda>(m, e). nat \<bar>m\<bar>)") auto

declare normalize_mant.simps [simp del]

definition to_binary64 :: "int \<times> int \<Rightarrow> (int \<times> int) option" where
  \<comment> \<open>the nearest binary64 magnitude; \<open>None\<close> when the rounded value is too large to be finite\<close>
  "to_binary64 q =
     (if fst q = 0 then Some (0, 0)
      else let ue = max (floor_log2 q - 52) (- 1074);
               r = round_half_even (scale 2 (- ue) q)
           in if 971 < ue \<or> (ue = 971 \<and> 2 ^ 53 \<le> r) then None
              else Some (normalize_mant r ue))"

definition mk_double :: "bool \<Rightarrow> int \<times> int \<Rightarrow> double" where
  "mk_double neg q = (case to_binary64 q of None \<Rightarrow> Infinite neg | Some (m, e) \<Rightarrow> Finite neg m e)"

definition frac_of :: "int \<Rightarrow> int \<Rightarrow> int \<times> int" where
  "frac_of m e = scale 2 e (m, 1)"

subsection \<open>\<^verbatim>\<open>float(s)\<close>\<close>

definition parse_exponent :: "string \<Rightarrow> int option" where
  \<comment> \<open>the text after the mantissa: empty, or \<^verbatim>\<open>e\<close>, an optional sign and digits\<close>
  "parse_exponent s = (case s of
       [] \<Rightarrow> Some 0
     | c # cs \<Rightarrow>
         if c = CHR ''e'' \<or> c = CHR ''E'' then
           (let (neg, ds) = split_sign cs
            in if ds = [] \<or> \<not> list_all is_digit ds then None
               else Some (if neg then - digits_val ds else digits_val ds))
         else None)"

definition parse_decimal :: "string \<Rightarrow> (int \<times> int) option" where
  \<comment> \<open>digits, an optional point and digits, an optional exponent; at least one mantissa digit\<close>
  "parse_decimal s =
     (let ip = takeWhile is_digit s; r1 = dropWhile is_digit s;
          (fp, r2) = (case r1 of
                        c # cs \<Rightarrow> if c = CHR ''.'' then (takeWhile is_digit cs, dropWhile is_digit cs)
                                  else ([], r1)
                      | [] \<Rightarrow> ([], []))
      in if ip = [] \<and> fp = [] then None
         else case parse_exponent r2 of
                None \<Rightarrow> None
              | Some x \<Rightarrow> Some (scale 10 (x - int (length fp)) (digits_val (ip @ fp), 1)))"

definition py_float :: "string \<Rightarrow> double option" where
  \<comment> \<open>\<^verbatim>\<open>float(s)\<close> for a string; \<open>None\<close> is the \<^verbatim>\<open>ValueError\<close>\<close>
  "py_float s =
     (case drop_underscores (strip_with is_num_space s) of
        None \<Rightarrow> None
      | Some t \<Rightarrow>
          (let (neg, body) = split_sign t; w = lower body
           in if w = ''inf'' \<or> w = ''infinity'' then Some (Infinite neg)
              else if w = ''nan'' then Some NaN
              else map_option (mk_double neg) (parse_decimal body)))"

subsection \<open>Formatting\<close>

definition strip_zeros :: "string \<Rightarrow> string" where
  "strip_zeros ds = rev (dropWhile (\<lambda>c. c = CHR ''0'') (rev ds))"

definition round_sig :: "nat \<Rightarrow> int \<times> int \<Rightarrow> int \<times> int" where
  \<comment> \<open>\<open>q > 0\<close> rounded to \<open>p\<close> significant digits: the digits as a number and the decimal
      exponent of the first one\<close>
  "round_sig p q =
     (let x = floor_log10 q; d = round_half_even (scale 10 (int p - 1 - x) q)
      in if d = 10 ^ p then (10 ^ (p - 1), x + 1) else (d, x))"

definition exp_str :: "int \<Rightarrow> string" where
  \<comment> \<open>the exponent of the scientific notation: a sign and at least two digits\<close>
  "exp_str x =
     (let ds = nat_digits \<bar>x\<bar>
      in (if x < 0 then ''e-'' else ''e+'') @ (if length ds < 2 then CHR ''0'' # ds else ds))"

definition sci_str :: "string \<Rightarrow> int \<Rightarrow> string" where
  "sci_str ds x = (case ds of
       [] \<Rightarrow> []
     | c # cs \<Rightarrow> (c # (if cs = [] then [] else CHR ''.'' # cs)) @ exp_str x)"

definition fixed_str :: "bool \<Rightarrow> string \<Rightarrow> int \<Rightarrow> string" where
  \<comment> \<open>positional notation of the digits \<open>ds\<close>, the first one at \<open>10 ^ x\<close>; the flag asks for
      \<^verbatim>\<open>.0\<close> after a whole number\<close>
  "fixed_str dot0 ds x =
     (if x < 0 then ''0.'' @ replicate (nat (- x - 1)) (CHR ''0'') @ ds
      else let n = nat x + 1
           in if length ds \<le> n
              then ds @ replicate (n - length ds) (CHR ''0'') @ (if dot0 then ''.0'' else [])
              else take n ds @ CHR ''.'' # drop n ds)"

definition sign_str :: "bool \<Rightarrow> string" where
  "sign_str neg = (if neg then ''-'' else [])"

definition format_g :: "nat \<Rightarrow> double \<Rightarrow> string" where
  \<comment> \<open>\<^verbatim>\<open>format(x, '.<p>g')\<close> for \<open>p \<ge> 1\<close>\<close>
  "format_g p x = (case x of
       NaN \<Rightarrow> ''nan''
     | Infinite neg \<Rightarrow> sign_str neg @ ''inf''
     | Finite neg m e \<Rightarrow>
         if m = 0 then sign_str neg @ ''0''
         else let (d, x) = round_sig p (frac_of m e); ds = strip_zeros (nat_digits d)
              in sign_str neg @ (if x < - 4 \<or> int p \<le> x then sci_str ds x else fixed_str False ds x))"

definition format_2f :: "double \<Rightarrow> string" where
  \<comment> \<open>\<^verbatim>\<open>format(x, '.2f')\<close>\<close>
  "format_2f x = (case x of
       NaN \<Rightarrow> ''nan''
     | Infinite neg \<Rightarrow> sign_str neg @ ''inf''
     | Finite neg m e \<Rightarrow>
         (let d = round_half_even (scale 10 2 (frac_of m e))
          in sign_str neg @ nat_digits (d div 100) @ ''.'' @
             [digit_char (d mod 100 div 10), digit_char (d mod 10)]))"

definition repr_candidate :: "int \<Rightarrow> int \<Rightarrow> nat \<Rightarrow> (int \<times> int) option" where
  \<comment> \<open>an \<open>n\<close>-digit decimal that reads back as \<open>m * 2 ^ e\<close>, the nearest one if there are two\<close>
  "repr_candidate m e n =
     (let q = frac_of m e; x = floor_log10 q; s = scale 10 (int n - 1 - x) q;
          lo = fst s div snd s; r = fst s mod snd s; hi = lo + 1;
          back = (\<lambda>c. to_binary64 (scale 10 (x - int n + 1) (c, 1)) = Some (m, e));
          pick = (\<lambda>c. Some (if c = 10 ^ n then (10 ^ (n - 1), x + 1) else (c, x)))
      in if back lo \<and> back hi then
           (if 2 * r < snd s then pick lo else if snd s < 2 * r then pick hi
            else if even lo then pick lo else pick hi)
         else if back lo then pick lo
         else if back hi then pick hi
         else None)"

definition float_repr :: "double \<Rightarrow> string" where
  \<comment> \<open>\<^verbatim>\<open>repr(x)\<close> and \<^verbatim>\<open>str(x)\<close>: the shortest digits that read back as \<open>x\<close>\<close>
  "float_repr x = (case x of
       NaN \<Rightarrow> ''nan''
     | Infinite neg \<Rightarrow> sign_str neg @ ''inf''
     | Finite neg m e \<Rightarrow>
         if m = 0 then sign_str neg @ ''0.0''
         else let (d, x) = (case List.map_filter (repr_candidate m e) [1..<18] of
                              c # _ \<Rightarrow> c
                            | [] \<Rightarrow> round_sig 17 (frac_of m e));
                  ds = strip_zeros (nat_digits d)
              in sign_str neg @ (if x < - 4 \<or> 16 \<le> x then sci_str ds x else fixed_str True ds x))"

subsection \<open>Arithmetic and comparison\<close>

definition float_zero :: double where
  \<comment> \<open>the float \<^verbatim>\<open>0.0\<close>\<close>
  "float_zero = Finite False 0 0"

definition whole :: "int \<Rightarrow> double" where
  \<comment> \<open>\<^verbatim>\<open>float(n)\<close> for a whole number\<close>
  "whole n = mk_double (n < 0) (\<bar>n\<bar>, 1)"

definition signed_at :: "bool \<Rightarrow> int \<Rightarrow> int \<Rightarrow> int \<Rightarrow> int" where
  \<comment> \<open>the integer \<open>k\<close> with \<open>\<plusminus> m * 2 ^ e = k * 2 ^ e0\<close>, for \<open>e0 \<le> e\<close>\<close>
  "signed_at neg m e e0 = (if neg then - m else m) * 2 ^ nat (e - e0)"

fun float_add :: "double \<Rightarrow> double \<Rightarrow> double" where
  \<comment> \<open>\<^verbatim>\<open>x + y\<close>: the exact sum, rounded; an exact zero is negative only as the sum of two
      negative zeros\<close>
  "float_add NaN y = NaN"
| "float_add x NaN = NaN"
| "float_add (Infinite a) (Infinite b) = (if a = b then Infinite a else NaN)"
| "float_add (Infinite a) (Finite b n f) = Infinite a"
| "float_add (Finite a m e) (Infinite b) = Infinite b"
| "float_add (Finite a m e) (Finite b n f) =
     (let e0 = min e f; s = signed_at a m e e0 + signed_at b n f e0
      in if s = 0 then Finite (if m = 0 \<and> n = 0 then a \<and> b else False) 0 0
         else mk_double (s < 0) (scale 2 e0 (\<bar>s\<bar>, 1)))"

definition float_neg :: "double \<Rightarrow> double" where
  \<comment> \<open>\<^verbatim>\<open>-x\<close>\<close>
  "float_neg x = (case x of
       Finite neg m e \<Rightarrow> Finite (\<not> neg) m e
     | Infinite neg \<Rightarrow> Infinite (\<not> neg)
     | NaN \<Rightarrow> NaN)"

definition float_sub :: "double \<Rightarrow> double \<Rightarrow> double" where
  \<comment> \<open>\<^verbatim>\<open>x - y\<close>\<close>
  "float_sub x y = float_add x (float_neg y)"

fun float_gt :: "double \<Rightarrow> double \<Rightarrow> bool" where
  \<comment> \<open>\<^verbatim>\<open>x > y\<close>: false when either side is not a number\<close>
  "float_gt NaN y = False"
| "float_gt x NaN = False"
| "float_gt (Infinite a) (Infinite b) = (\<not> a \<and> b)"
| "float_gt (Infinite a) (Finite b n f) = (\<not> a)"
| "float_gt (Finite a m e) (Infinite b) = b"
| "float_gt (Finite a m e) (Finite b n f) =
     (signed_at b n f (min e f) < signed_at a m e (min e f))"

section \<open>Values, exceptions and dictionaries\<close>

text \<open>
  The scalar values a caller hands over as parameters or a command table gives as defaults,
  and the values \<^verbatim>\<open>json.loads\<close> returns.
\<close>

datatype pyval = PyNone | PyBool bool | PyInt int | PyFloat double | PyStr string

definition py_str :: "pyval \<Rightarrow> string" where
  \<comment> \<open>\<^verbatim>\<open>str(v)\<close>\<close>
  "py_str v = (case v of
       PyNone \<Rightarrow> ''None''
     | PyBool b \<Rightarrow> (if b then ''True'' else ''False'')
     | PyInt i \<Rightarrow> int_str i
     | PyFloat x \<Rightarrow> float_repr x
     | PyStr s \<Rightarrow> s)"

datatype json =
    JNull | JBool bool | JInt int | JFloat double | JStr string
  | JArr "json list" | JObj "(string \<times> json) list"

definition truthy_json :: "json \<Rightarrow> bool" where
  \<comment> \<open>the truth value of a decoded JSON value in a condition\<close>
  "truthy_json v = (case v of
       JNull \<Rightarrow> False
     | JBool b \<Rightarrow> b
     | JInt i \<Rightarrow> i \<noteq> 0
     | JFloat x \<Rightarrow> (case x of Finite neg m e \<Rightarrow> m \<noteq> 0 | Infinite neg \<Rightarrow> True | NaN \<Rightarrow> True)
     | JStr s \<Rightarrow> s \<noteq> []
     | JArr xs \<Rightarrow> xs \<noteq> []
     | JObj kvs \<Rightarrow> kvs \<noteq> [])"

text \<open>
  The exceptions of the code, by class.  \<open>ArgparseExit\<close> is what \<^verbatim>\<open>parser.error(msg)\<close>
  does (usage and message on stderr, exit status 2); \<open>PyException\<close> is any exception class
  the code names nowhere.
\<close>

datatype exn =
    ValueError string
  | RuntimeError string
  | AttributeError string
  | ArgparseExit string
  | PyException string

text \<open>
  A \<^verbatim>\<open>dict\<close> is an association list in insertion order; a well-formed one has no key
  twice.
\<close>

definition is_dict :: "('k \<times> 'v) list \<Rightarrow> bool" where
  "is_dict d = distinct (map fst d)"

fun dict_set :: "('k \<times> 'v) list \<Rightarrow> 'k \<Rightarrow> 'v \<Rightarrow> ('k \<times> 'v) list" where
  \<comment> \<open>\<^verbatim>\<open>d[k] = v\<close>: an old key keeps its place, a new one goes last\<close>
  "dict_set [] k v = [(k, v)]"
| "dict_set (p # d) k v = (if fst p = k then (k, v) # d else p # dict_set d k v)"

definition dict_update :: "('k \<times> 'v) list \<Rightarrow> ('k \<times> 'v) list \<Rightarrow> ('k \<times> 'v) list" where
  \<comment> \<open>\<^verbatim>\<open>d.update(e)\<close>\<close>
  "dict_update d e = foldl (\<lambda>acc kv. dict_set acc (fst kv) (snd kv)) d e"

definition dict_pop :: "('k \<times> 'v) list \<Rightarrow> 'k \<Rightarrow> ('k \<times> 'v) list" where
  \<comment> \<open>the dictionary after \<^verbatim>\<open>d.pop(k)\<close>\<close>
  "dict_pop d k = filter (\<lambda>kv. fst kv \<noteq> k) d"

definition json_get :: "json \<Rightarrow> string \<Rightarrow> json \<Rightarrow> exn + json" where
  \<comment> \<open>\<^verbatim>\<open>v.get(key, default)\<close>: only a \<^verbatim>\<open>dict\<close> has the method\<close>
  "json_get v key dflt = (case v of
       JObj kvs \<Rightarrow> (case map_of kvs key of None \<Rightarrow> Inr dflt | Some x \<Rightarrow> Inr x)
     | _ \<Rightarrow> Inl (AttributeError ''get''))"

section \<open>The command table (constants.py)\<close>

datatype converter = TyFloat | TyInt | TyStr | TyBool

text \<open>
  A parameter specification is a dictionary with the key \<^verbatim>\<open>name\<close> and the optional keys
  \<^verbatim>\<open>type\<close>, \<^verbatim>\<open>required\<close>, \<^verbatim>\<open>default\<close> and \<^verbatim>\<open>help\<close>; an absent key is \<open>None\<close>.
\<close>

record param_spec =
  ps_name :: string
  ps_type :: "converter option"
  ps_required :: "bool option"
  ps_default :: "pyval option"
  ps_help :: "string option"

record command_spec =
  cs_action :: string
  cs_description :: "string option"
  cs_static_params :: "(string \<times> json) list option"
  cs_params :: "param_spec list option"

definition TOKEN_OVERRIDE_PARAMS :: "(string \<times> json) list" where
  "TOKEN_OVERRIDE_PARAMS = [(''tokenoverride'', JStr ''1''), (''_'', JStr ''0'')]"

definition FLIR1_IP :: string where "FLIR1_IP = ''169.254.80.109''"
definition FLIR2_IP :: string where "FLIR2_IP = ''169.254.50.183''"
definition DEFAULT_CAMERA :: string where "DEFAULT_CAMERA = ''FLIR2''"

definition CAMERA_HOSTS :: "(string \<times> string) list" where
  "CAMERA_HOSTS = [(''FLIR1'', FLIR1_IP), (''FLIR2'', FLIR2_IP)]"

definition NEXUS_DEFAULT_PORT :: int where "NEXUS_DEFAULT_PORT = 80"
definition NEXUS_CGI_PATH :: string where "NEXUS_CGI_PATH = ''/Nexus.cgi''"

definition param :: "string \<Rightarrow> converter \<Rightarrow> string \<Rightarrow> param_spec" where
  \<comment> \<open>a table entry with the keys \<^verbatim>\<open>name\<close>, \<^verbatim>\<open>type\<close> and \<^verbatim>\<open>help\<close>\<close>
  "param n t h =
     \<lparr>ps_name = n, ps_type = Some t, ps_required = None, ps_default = None, ps_help = Some h\<rparr>"

definition CAMERA_COMMANDS :: "(string \<times> command_spec) list" where
  "CAMERA_COMMANDS =
     [(''get_zoom'',
         \<lparr>cs_action = ''DLTVFOVMagnificationGet'',
          cs_description = Some ''Return the current zoom magnification.'',
          cs_static_params = None, cs_params = Some []\<rparr>),
      (''get_zoom_fov'',
         \<lparr>cs_action = ''DLTVZoomDegreesGet'',
          cs_description = Some ''Return the current zoom field-of-view in degrees.'',
          cs_static_params = None, cs_params = Some []\<rparr>),
      (''set_zoom'',
         \<lparr>cs_action = ''DLTVFOVMagnificationSet'',
          cs_description = Some ''Set zoom magnification to a specific value.'',
          cs_static_params = None,
          cs_params = Some [param ''Magnification'' TyFloat ''Target zoom magnification.'']\<rparr>),
      (''auto_focus'',
         \<lparr>cs_action = ''DLTVAutoFocusPush'',
          cs_description = Some ''Trigger an autofocus operation.'',
          cs_static_params = None, cs_params = Some []\<rparr>),
      (''get_speed'',
         \<lparr>cs_action = ''PTSpeedGet'',
          cs_description = Some ''Fetch the current azimuth/elevation speed configuration.'',
          cs_static_params = None, cs_params = Some []\<rparr>),
      (''set_speed'',
         \<lparr>cs_action = ''PTSpeedModeSet'',
          cs_description = Some ''Update azimuth and elevation speed settings.'',
          cs_static_params = None,
          cs_params = Some [param ''Azimuth_Speed'' TyInt ''Desired azimuth speed setting.'',
                            param ''Elevation_Speed'' TyInt ''Desired elevation speed setting.'']\<rparr>),
      (''get_position'',
         \<lparr>cs_action = ''PTAzimuthElevationGet'',
          cs_description = Some ''Retrieve the current azimuth/elevation angles.'',
          cs_static_params = None, cs_params = Some []\<rparr>),
      (''center'',
         \<lparr>cs_action = ''PTAzimuthElevationOnScreenSet'',
          cs_description = Some ''Center the camera on a screen coordinate (X/Y).'',
          cs_static_params =
            Some [(''Active_cam'', JStr ''0''), (''Cam_type'', JStr ''4''), (''Cam_id'', JStr ''0'')],
          cs_params = Some [param ''ScreenX'' TyFloat ''Horizontal screen coordinate.'',
                            param ''ScreenY'' TyFloat ''Vertical screen coordinate.'']\<rparr>)]"

section \<open>The command-line module (camera\_control.py)\<close>

record parsed_command =
  pc_name :: string
  pc_action :: string
  pc_description :: string
  pc_static_params :: "(string \<times> json) list"
  pc_param_specs :: "param_spec list"

definition load_command :: "string \<Rightarrow> exn + parsed_command" where
  "load_command command_name = (case map_of CAMERA_COMMANDS command_name of
       None \<Rightarrow>
         (let available = join '', '' (sorted_strs (map fst CAMERA_COMMANDS))
          in Inl (ValueError (''Unknown command '' @ quoted command_name @ ''. Available: '' @ available)))
     | Some spec \<Rightarrow>
         Inr \<lparr>pc_name = command_name,
              pc_action = cs_action spec,
              pc_description = (case cs_description spec of None \<Rightarrow> [] | Some d \<Rightarrow> d),
              pc_static_params = (case cs_static_params spec of None \<Rightarrow> [] | Some d \<Rightarrow> d),
              pc_param_specs = (case cs_params spec of None \<Rightarrow> [] | Some ps \<Rightarrow> ps)\<rparr>)"

definition truthy :: "string list" where
  "truthy = [''1'', ''true'', ''t'', ''yes'', ''y'', ''on'']"

definition falsy :: "string list" where
  "falsy = [''0'', ''false'', ''f'', ''no'', ''n'', ''off'']"

definition str_list_repr :: "string list \<Rightarrow> string" where
  \<comment> \<open>how an f-string shows a list of strings that hold no quote, backslash or control
      character\<close>
  "str_list_repr xs = ''['' @ join '', '' (map quoted xs) @ '']''"

definition type_name :: "converter \<Rightarrow> string" where
  \<comment> \<open>the \<^verbatim>\<open>__name__\<close> of the type object\<close>
  "type_name t = (case t of TyFloat \<Rightarrow> ''float'' | TyInt \<Rightarrow> ''int'' | TyStr \<Rightarrow> ''str'' | TyBool \<Rightarrow> ''bool'')"

definition unable_to_convert :: "string \<Rightarrow> string \<Rightarrow> converter \<Rightarrow> exn" where
  "unable_to_convert name val t =
     ValueError (''Unable to convert '' @ quoted name @ ''='' @ quoted val @ '' to '' @ type_name t)"

definition coerce_param_value :: "string \<Rightarrow> string \<Rightarrow> param_spec \<Rightarrow> exn + string" where
  "coerce_param_value name val spec =
     (let converter = (case ps_type spec of None \<Rightarrow> TyStr | Some t \<Rightarrow> t)
      in if converter = TyBool then
           (let lower_val = lower val
            in if lower_val \<in> set truthy then Inr ''1''
               else if lower_val \<in> set falsy then Inr ''0''
               else Inl (ValueError (''Parameter '' @ quoted name @ '' expects a boolean value. '' @
                           ''Supported inputs: '' @
                           str_list_repr (sorted_strs (remdups (truthy @ falsy))))))
         else (case converter of
                 TyFloat \<Rightarrow> (case py_float val of
                                None \<Rightarrow> Inl (unable_to_convert name val converter)
                              | Some converted \<Rightarrow> Inr (format_g 10 converted))
               | TyInt \<Rightarrow> (case py_int val of
                              None \<Rightarrow> Inl (unable_to_convert name val converter)
                            | Some converted \<Rightarrow> Inr (int_str converted))
               | _ \<Rightarrow> Inr val))"

definition build_query ::
  "parsed_command \<Rightarrow> json \<Rightarrow> (string \<times> string) list \<Rightarrow> bool \<Rightarrow> (string \<times> json) list" where
  "build_query command session dynamic_params include_token_params =
     (let query = [(''session'', session), (''action'', JStr (pc_action command))];
          query = dict_update query (pc_static_params command);
          query = dict_update query (map (\<lambda>kv. (fst kv, JStr (snd kv))) dynamic_params)
      in if include_token_params then dict_update query TOKEN_OVERRIDE_PARAMS else query)"

definition is_required :: "param_spec \<Rightarrow> bool" where
  \<comment> \<open>\<^verbatim>\<open>spec.get("required", True)\<close>\<close>
  "is_required spec = (case ps_required spec of None \<Rightarrow> True | Some r \<Rightarrow> r)"

definition missing_required :: "string \<Rightarrow> string \<Rightarrow> string" where
  "missing_required name command_name =
     ''Missing required parameter '' @ quoted name @ '' for command '' @ quoted command_name @ ''.''"

text \<open>The loop of \<^verbatim>\<open>main\<close> over the declared parameters, and the check after it.\<close>

fun main_coerce ::
  "string \<Rightarrow> param_spec list \<Rightarrow> (string \<times> string) list \<Rightarrow> (string \<times> string) list \<Rightarrow>
   exn + (string \<times> string) list \<times> (string \<times> string) list" where
  "main_coerce command_name [] provided_params coerced_params = Inr (provided_params, coerced_params)"
| "main_coerce command_name (spec # specs) provided_params coerced_params =
     (let name = ps_name spec; required = is_required spec
      in case map_of provided_params name of
           None \<Rightarrow>
             if required \<and> ps_default spec = None
             then Inl (ArgparseExit (missing_required name command_name))
             else (case ps_default spec of
                     Some d \<Rightarrow> main_coerce command_name specs provided_params
                                 (dict_set coerced_params name (py_str d))
                   | None \<Rightarrow> main_coerce command_name specs provided_params coerced_params)
         | Some val \<Rightarrow>
             (case coerce_param_value name val spec of
                Inl e \<Rightarrow> Inl e
              | Inr s \<Rightarrow> main_coerce command_name specs (dict_pop provided_params name)
                           (dict_set coerced_params name s)))"

definition unexpected_parameters :: "string \<Rightarrow> string list \<Rightarrow> string" where
  "unexpected_parameters command_name extras =
     ''Unexpected parameters for '' @ quoted command_name @ '': '' @ join '', '' extras @ ''. '' @
     ''Check constants.CAMERA_COMMANDS for supported names.''"

definition main_resolve ::
  "parsed_command \<Rightarrow> (string \<times> string) list \<Rightarrow> exn + (string \<times> string) list" where
  "main_resolve command provided_params =
     (case main_coerce (pc_name command) (pc_param_specs command) provided_params [] of
        Inl e \<Rightarrow> Inl e
      | Inr (provided_params, coerced_params) \<Rightarrow>
          if provided_params \<noteq> []
          then Inl (ArgparseExit (unexpected_parameters (pc_name command) (map fst provided_params)))
          else Inr coerced_params)"

section \<open>The environment\<close>

text \<open>
  What the code reads from outside is given by an environment: the clock, the outcome of
  each HTTP exchange and of each child process, and \<^verbatim>\<open>json.loads\<close>.  Every effect is
  appended to a trace, and the environment answers an effect by its position in the trace.
  Clock readings and time-outs are floats.  Output written with \<^verbatim>\<open>print\<close> is left
  out.
\<close>

datatype event =
    EvClock
  | EvUrlopen string
  | EvRequest string "(string \<times> json) list"
  | EvSubprocess "string list"

type_synonym world = "event list"

datatype http_outcome =
    HTTPError int string
  | URLError string
  | HttpRaises string
  | Body string

datatype proc_outcome =
    ProcRaises string
  | Exited int string string

record env =
  clock :: "nat \<Rightarrow> double"
  urlopen :: "nat \<Rightarrow> http_outcome"
  subprocess :: "nat \<Rightarrow> proc_outcome"
  json_loads :: "string \<Rightarrow> json option"

definition issue_request ::
  "env \<Rightarrow> string \<Rightarrow> (string \<times> json) list \<Rightarrow> double \<Rightarrow> world \<Rightarrow> (exn + json) \<times> world" where
  "issue_request env url_base query_params timeout w =
     (let w' = w @ [EvRequest url_base query_params]
      in case urlopen env (length w) of
           HTTPError code reason \<Rightarrow>
             (Inl (RuntimeError (''HTTP error '' @ nat_digits code @ '' from camera: '' @ reason)), w')
         | URLError reason \<Rightarrow> (Inl (RuntimeError (''Failed to reach camera: '' @ reason)), w')
         | HttpRaises x \<Rightarrow> (Inl (PyException x), w')
         | Body payload \<Rightarrow>
             (case json_loads env payload of
                Some v \<Rightarrow> (Inr v, w')
              | None \<Rightarrow> (Inr (JObj [(''raw'', JStr payload)]), w')))"

section \<open>The HTTP backend (CameraControlAPI.py)\<close>

record api =
  camera_alias :: string
  port :: int
  host_override :: "string option"
  session_timeout :: double
  request_timeout :: double
  session_id :: json
  last_auth :: double

definition host :: "api \<Rightarrow> exn + string" where
  "host a =
     (case (case host_override a of None \<Rightarrow> [] | Some h \<Rightarrow> h) of
        c # cs \<Rightarrow> Inr (c # cs)
      | [] \<Rightarrow>
          (case map_of CAMERA_HOSTS (camera_alias a) of
             None \<Rightarrow>
               (let available = join '', '' (sorted_strs (map fst CAMERA_HOSTS))
                in Inl (ValueError (''Unknown camera alias '' @ quoted (camera_alias a) @
                          ''. Known aliases: '' @ available)))
           | Some h \<Rightarrow> Inr h))"

definition invalidate_session :: "api \<Rightarrow> api" where
  "invalidate_session a = a\<lparr>session_id := JNull, last_auth := float_zero\<rparr>"

definition set_camera :: "string option \<Rightarrow> string option \<Rightarrow> api \<Rightarrow> api" where
  "set_camera alias h a =
     (let a = (case alias of None \<Rightarrow> a | Some x \<Rightarrow> a\<lparr>camera_alias := x\<rparr>);
          a = (case h of None \<Rightarrow> a | Some x \<Rightarrow> a\<lparr>host_override := Some x\<rparr>)
      in invalidate_session a)"

definition session_expired :: "env \<Rightarrow> api \<times> world \<Rightarrow> bool \<times> api \<times> world" where
  "session_expired env st =
     (case st of (a, w) \<Rightarrow>
        (float_gt (float_sub (clock env (length w)) (last_auth a)) (session_timeout a),
         a, w @ [EvClock]))"

definition base_url :: "api \<Rightarrow> exn + string" where
  "base_url a = (case host a of
       Inl e \<Rightarrow> Inl e
     | Inr h \<Rightarrow> Inr (''http://'' @ h @ '':'' @ int_str (port a) @ NEXUS_CGI_PATH))"

definition session_fresh :: "env \<Rightarrow> bool \<Rightarrow> api \<times> world \<Rightarrow> bool \<times> api \<times> world" where
  \<comment> \<open>the condition \<^verbatim>\<open>not force and self.session_id and not self._session_expired()\<close>,
      which reads the clock only when the two operands before it hold\<close>
  "session_fresh env force st =
     (case st of (a, w) \<Rightarrow>
        if \<not> force \<and> truthy_json (session_id a)
        then (case session_expired env (a, w) of (expired, st') \<Rightarrow> (\<not> expired, st'))
        else (False, a, w))"

definition authenticate :: "env \<Rightarrow> bool \<Rightarrow> api \<times> world \<Rightarrow> (exn + bool) \<times> api \<times> world" where
  "authenticate env force st =
     (case session_fresh env force st of
        (True, st') \<Rightarrow> (Inr True, st')
      | (False, a, w) \<Rightarrow>
          (case base_url a of
             Inl e \<Rightarrow> (Inl e, a, w)
           | Inr base \<Rightarrow>
               (let auth_url = base @ ''?action=SERVERWhoAmI''; w' = w @ [EvUrlopen auth_url]
                in case urlopen env (length w) of
                     HTTPError code reason \<Rightarrow> (Inr False, invalidate_session a, w')
                   | URLError reason \<Rightarrow> (Inr False, invalidate_session a, w')
                   | HttpRaises x \<Rightarrow> (Inl (PyException x), a, w')
                   | Body payload \<Rightarrow>
                       (case json_loads env payload of
                          None \<Rightarrow> (Inr False, invalidate_session a, w')
                        | Some data \<Rightarrow>
                            (case json_get data ''SERVERWhoAmI'' (JObj []) of
                               Inl e \<Rightarrow> (Inl e, a, w')
                             | Inr who \<Rightarrow>
                                 (case json_get who ''Id'' JNull of
                                    Inl e \<Rightarrow> (Inl e, a, w')
                                  | Inr session \<Rightarrow>
                                      if \<not> truthy_json session
                                      then (Inr False, invalidate_session a, w')
                                      else (Inr True,
                                            a\<lparr>session_id := session, last_auth := clock env (length w')\<rparr>,
                                            w' @ [EvClock])))))))"

text \<open>The loop of \<^verbatim>\<open>execute\<close> over the declared parameters, and the check after it.\<close>

fun execute_coerce ::
  "string \<Rightarrow> param_spec list \<Rightarrow> (string \<times> pyval) list \<Rightarrow> (string \<times> string) list \<Rightarrow>
   exn + (string \<times> string) list" where
  "execute_coerce command_name [] params coerced = Inr coerced"
| "execute_coerce command_name (spec # specs) params coerced =
     (let name = ps_name spec; required = is_required spec
      in case map_of params name of
           None \<Rightarrow>
             if required \<and> ps_default spec = None
             then Inl (ValueError (missing_required name command_name))
             else (case ps_default spec of
                     Some d \<Rightarrow> execute_coerce command_name specs params (dict_set coerced name (py_str d))
                   | None \<Rightarrow> execute_coerce command_name specs params coerced)
         | Some v \<Rightarrow>
             (case coerce_param_value name (py_str v) spec of
                Inl e \<Rightarrow> Inl e
              | Inr s \<Rightarrow> execute_coerce command_name specs params (dict_set coerced name s)))"

definition unexpected_parameter :: "string \<Rightarrow> string list \<Rightarrow> string" where
  "unexpected_parameter command_name extras =
     ''Unexpected parameter(s) for '' @ quoted command_name @ '': '' @
     join '', '' (sorted_strs extras) @ ''.''"

definition execute_resolve ::
  "string \<Rightarrow> parsed_command \<Rightarrow> (string \<times> pyval) list \<Rightarrow> exn + (string \<times> string) list" where
  "execute_resolve command_name parsed_command params =
     (let expected = map ps_name (pc_param_specs parsed_command)
      in case execute_coerce command_name (pc_param_specs parsed_command) params [] of
           Inl e \<Rightarrow> Inl e
         | Inr coerced \<Rightarrow>
             (let extras = remdups (filter (\<lambda>k. k \<notin> set expected) (map fst params))
              in if extras \<noteq> [] then Inl (ValueError (unexpected_parameter command_name extras))
                 else Inr coerced))"

definition execute ::
  "env \<Rightarrow> string \<Rightarrow> (string \<times> pyval) list \<Rightarrow> api \<times> world \<Rightarrow> (exn + json) \<times> api \<times> world" where
  "execute env command_name params st =
     (case authenticate env False st of
        (Inl e, st') \<Rightarrow> (Inl e, st')
      | (Inr False, st') \<Rightarrow>
          (Inl (RuntimeError ''Unable to authenticate before executing command.''), st')
      | (Inr True, a, w) \<Rightarrow>
          (case load_command command_name of
             Inl e \<Rightarrow> (Inl e, a, w)
           | Inr parsed_command \<Rightarrow>
               (case execute_resolve command_name parsed_command params of
                  Inl e \<Rightarrow> (Inl e, a, w)
                | Inr coerced \<Rightarrow>
                    (let query = build_query parsed_command (session_id a) coerced True
                     in case base_url a of
                          Inl e \<Rightarrow> (Inl e, a, w)
                        | Inr base \<Rightarrow>
                            (case issue_request env base query (request_timeout a) w of
                               (r, w') \<Rightarrow> (r, a, w'))))))"

section \<open>The script backend (CameraControl.py)\<close>

record camera_control =
  AUTHENTICATE_SCRIPT :: string
  GET_DEGREE :: string
  GET_ZOOM :: string
  SET_ZOOM :: string
  MOVE_SCRIPT :: string
  GET_SPEED :: string
  camera_ip :: string
  cc_session_id :: "string option"
  last_auth_time :: double
  SESSION_TIMEOUT :: double

definition set_camera_ip :: "string \<Rightarrow> camera_control \<Rightarrow> exn + camera_control" where
  "set_camera_ip ip_address c =
     (if ip_address = [] then Inl (ValueError ''Camera IP address cannot be empty.'')
      else if ip_address \<noteq> camera_ip c
      then Inr (c\<lparr>camera_ip := ip_address, cc_session_id := None, last_auth_time := float_zero\<rparr>)
      else Inr c)"

definition has_session :: "camera_control \<Rightarrow> bool" where
  \<comment> \<open>the truth value of \<^verbatim>\<open>self.session_id\<close>\<close>
  "has_session c = (case cc_session_id c of None \<Rightarrow> False | Some s \<Rightarrow> s \<noteq> [])"

definition is_session_expired ::
  "env \<Rightarrow> camera_control \<times> world \<Rightarrow> bool \<times> camera_control \<times> world" where
  "is_session_expired env st =
     (case st of (c, w) \<Rightarrow>
        (float_gt (float_sub (clock env (length w)) (last_auth_time c)) (SESSION_TIMEOUT c),
         c, w @ [EvClock]))"

definition cc_session_fresh ::
  "env \<Rightarrow> bool \<Rightarrow> camera_control \<times> world \<Rightarrow> bool \<times> camera_control \<times> world" where
  \<comment> \<open>the condition \<^verbatim>\<open>not force_auth and self.session_id and not self._is_session_expired()\<close>\<close>
  "cc_session_fresh env force_auth st =
     (case st of (c, w) \<Rightarrow>
        if \<not> force_auth \<and> has_session c
        then (case is_session_expired env (c, w) of (expired, st') \<Rightarrow> (\<not> expired, st'))
        else (False, c, w))"

definition cc_authenticate ::
  "env \<Rightarrow> bool \<Rightarrow> camera_control \<times> world \<Rightarrow> bool \<times> camera_control \<times> world" where
  "cc_authenticate env force_auth st =
     (case cc_session_fresh env force_auth st of
        (True, st') \<Rightarrow> (True, st')
      | (False, c, w) \<Rightarrow>
          (let w' = w @ [EvSubprocess [AUTHENTICATE_SCRIPT c, camera_ip c]]
           in case subprocess env (length w) of
                ProcRaises x \<Rightarrow> (False, c\<lparr>cc_session_id := None\<rparr>, w')
              | Exited returncode out err \<Rightarrow>
                  if returncode \<noteq> 0 then (False, c\<lparr>cc_session_id := None\<rparr>, w')
                  else (let c = c\<lparr>cc_session_id := Some (strip out)\<rparr>
                        in if \<not> has_session c then (False, c, w')
                           else (True, c\<lparr>last_auth_time := clock env (length w')\<rparr>,
                                 w' @ [EvClock]))))"

text \<open>
  What \<^verbatim>\<open>get_degree_pos\<close> returns: a pair, or the single value \<^verbatim>\<open>None\<close> when the
  function body ends without a \<^verbatim>\<open>return\<close>.  \<open>JNull\<close> stands for \<^verbatim>\<open>None\<close> inside the pair.
\<close>

datatype position = ReturnsNone | ReturnsPair json json

definition parse_position :: "env \<Rightarrow> string \<Rightarrow> nat \<Rightarrow> position" where
  \<comment> \<open>the statements after the search for the brace; any exception there is caught and gives
      \<^verbatim>\<open>(None, None)\<close>\<close>
  "parse_position env output_str json_start_index =
     (case json_loads env (drop json_start_index output_str) of
        None \<Rightarrow> ReturnsPair JNull JNull
      | Some data \<Rightarrow>
          (case json_get data ''PTAzimuthElevationGet'' (JObj []) of
             Inl e \<Rightarrow> ReturnsPair JNull JNull
           | Inr pt \<Rightarrow>
               (case json_get pt ''Azimuth'' JNull of
                  Inl e \<Rightarrow> ReturnsPair JNull JNull
                | Inr azimuth \<Rightarrow>
                    (case json_get pt ''Elevation'' JNull of
                       Inl e \<Rightarrow> ReturnsPair JNull JNull
                     | Inr elevation \<Rightarrow> ReturnsPair azimuth elevation))))"

fun get_degree_attempts ::
  "env \<Rightarrow> nat list \<Rightarrow> camera_control \<times> world \<Rightarrow> position \<times> camera_control \<times> world" where
  "get_degree_attempts env [] st = (ReturnsNone, st)"
| "get_degree_attempts env (attempt # rest) (c, w) =
     (case cc_session_id c of
        None \<Rightarrow> (ReturnsPair JNull JNull, c, w)
      | Some sid \<Rightarrow>
          (let command_to_get = [GET_DEGREE c, camera_ip c, sid];
               w' = w @ [EvSubprocess command_to_get]
           in case subprocess env (length w) of
                ProcRaises x \<Rightarrow> (ReturnsPair JNull JNull, c, w')
              | Exited returncode output_str err \<Rightarrow>
                  if returncode \<noteq> 0 then
                    (if attempt = 0 then
                       (case cc_authenticate env True (c, w') of
                          (False, st') \<Rightarrow> (ReturnsPair JNull JNull, st')
                        | (True, st') \<Rightarrow> get_degree_attempts env rest st')
                     else (ReturnsPair JNull JNull, c, w'))
                  else (case find_char output_str (CHR ''{'') of
                          None \<Rightarrow> get_degree_attempts env rest (c, w')
                        | Some json_start_index \<Rightarrow>
                            (parse_position env output_str json_start_index, c, w'))))"

definition get_degree_pos ::
  "env \<Rightarrow> camera_control \<times> world \<Rightarrow> position \<times> camera_control \<times> world" where
  "get_degree_pos env st =
     (case cc_authenticate env False st of
        (False, st') \<Rightarrow> (ReturnsPair JNull JNull, st')
      | (True, st') \<Rightarrow> get_degree_attempts env [0, 1] st')"

definition as_double :: "pyval \<Rightarrow> double option" where
  \<comment> \<open>the number a \<^verbatim>\<open>.2f\<close> format specification is applied to; \<open>None\<close> when formatting raises\<close>
  "as_double v = (case v of
       PyFloat x \<Rightarrow> Some x
     | PyInt i \<Rightarrow> (case to_binary64 (\<bar>i\<bar>, 1) of
                     None \<Rightarrow> None
                   | Some (m, e) \<Rightarrow> Some (Finite (i < 0) m e))
     | PyBool b \<Rightarrow> Some (if b then Finite False 1 0 else Finite False 0 0)
     | PyStr s \<Rightarrow> None
     | PyNone \<Rightarrow> None)"

definition fmt_2f :: "pyval \<Rightarrow> string option" where
  \<comment> \<open>\<^verbatim>\<open>f"{v:.2f}"\<close>\<close>
  "fmt_2f v = map_option format_2f (as_double v)"

definition move_command ::
  "camera_control \<Rightarrow> pyval \<Rightarrow> pyval \<Rightarrow> pyval \<Rightarrow> pyval \<Rightarrow> string list option" where
  \<comment> \<open>the argument list of the move script; \<open>None\<close> when building it raises\<close>
  "move_command c target_az target_el speed_az speed_el =
     (case (cc_session_id c, fmt_2f target_az, fmt_2f target_el, fmt_2f speed_az, fmt_2f speed_el) of
        (Some sid, Some a, Some b, Some x, Some y) \<Rightarrow> Some [MOVE_SCRIPT c, camera_ip c, sid, a, b, x, y]
      | _ \<Rightarrow> None)"

fun move_attempts ::
  "env \<Rightarrow> pyval \<Rightarrow> pyval \<Rightarrow> pyval \<Rightarrow> pyval \<Rightarrow> nat list \<Rightarrow> camera_control \<times> world \<Rightarrow>
   bool option \<times> camera_control \<times> world" where
  \<comment> \<open>\<open>None\<close> is the value of a body that ends without a \<^verbatim>\<open>return\<close>\<close>
  "move_attempts env target_az target_el speed_az speed_el [] st = (None, st)"
| "move_attempts env target_az target_el speed_az speed_el (attempt # rest) (c, w) =
     (case move_command c target_az target_el speed_az speed_el of
        None \<Rightarrow> (Some False, c, w)
      | Some command \<Rightarrow>
          (let w' = w @ [EvSubprocess command]
           in case subprocess env (length w) of
                ProcRaises x \<Rightarrow> (Some False, c, w')
              | Exited returncode out err \<Rightarrow>
                  if returncode \<noteq> 0 then
                    (if attempt = 0 then
                       (case cc_authenticate env True (c, w') of
                          (False, st') \<Rightarrow> (Some False, st')
                        | (True, st') \<Rightarrow>
                            move_attempts env target_az target_el speed_az speed_el rest st')
                     else (Some False, c, w'))
                  else (Some True, c, w')))"

definition move_camera_to_absolute_pos ::
  "env \<Rightarrow> pyval \<Rightarrow> pyval \<Rightarrow> pyval \<Rightarrow> pyval \<Rightarrow> camera_control \<times> world \<Rightarrow>
   bool option \<times> camera_control \<times> world" where
  "move_camera_to_absolute_pos env target_az target_el speed_az speed_el st =
     (case cc_authenticate env False st of
        (False, st') \<Rightarrow> (Some False, st')
      | (True, st') \<Rightarrow> move_attempts env target_az target_el speed_az speed_el [0, 1] st')"

section \<open>Notions used in the statements\<close>

definition absent_required :: "string set \<Rightarrow> param_spec \<Rightarrow> bool" where
  \<comment> \<open>a declared parameter that is required, has no default and is not among the supplied keys\<close>
  "absent_required supplied spec =
     (ps_name spec \<notin> supplied \<and> is_required spec \<and> ps_default spec = None)"

definition coercion_fails_api :: "(string \<times> pyval) list \<Rightarrow> param_spec \<Rightarrow> bool" where
  \<comment> \<open>a declared parameter that \<^verbatim>\<open>execute\<close> is given a value for which the coercion rejects\<close>
  "coercion_fails_api params spec =
     (case map_of params (ps_name spec) of
        None \<Rightarrow> False
      | Some v \<Rightarrow> isl (coerce_param_value (ps_name spec) (py_str v) spec))"

definition coercion_fails_cli :: "(string \<times> string) list \<Rightarrow> param_spec \<Rightarrow> bool" where
  \<comment> \<open>the same for the command line, where the values are strings already\<close>
  "coercion_fails_cli provided spec =
     (case map_of provided (ps_name spec) of
        None \<Rightarrow> False
      | Some v \<Rightarrow> isl (coerce_param_value (ps_name spec) v spec))"

definition resolves_api :: "(string \<times> pyval) list \<Rightarrow> param_spec \<Rightarrow> bool" where
  \<comment> \<open>a declared parameter that the loop of \<^verbatim>\<open>execute\<close> passes without raising\<close>
  "resolves_api params q =
     (\<not> absent_required (fst ` set params) q \<and> \<not> coercion_fails_api params q)"

definition resolves_cli :: "(string \<times> string) list \<Rightarrow> param_spec \<Rightarrow> bool" where
  \<comment> \<open>the same for the loop of \<^verbatim>\<open>main\<close>\<close>
  "resolves_cli provided q =
     (\<not> absent_required (fst ` set provided) q \<and> \<not> coercion_fails_cli provided q)"

definition is_finite :: "double \<Rightarrow> bool" where
  "is_finite x = (case x of Finite neg m e \<Rightarrow> True | Infinite neg \<Rightarrow> False | NaN \<Rightarrow> False)"

definition float_val :: "double \<Rightarrow> real" where
  \<comment> \<open>the number a finite float stands for (and 0 for the others)\<close>
  "float_val x = (case x of
       Finite neg m e \<Rightarrow> (if neg then - 1 else 1) * of_int m * 2 powr of_int e
     | Infinite neg \<Rightarrow> 0
     | NaN \<Rightarrow> 0)"

definition exact_sub :: "double \<Rightarrow> double \<Rightarrow> bool" where
  \<comment> \<open>\<^verbatim>\<open>x - y\<close> is finite and needs no rounding\<close>
  "exact_sub x y =
     (is_finite x \<and> is_finite y \<and> is_finite (float_sub x y) \<and>
      float_val (float_sub x y) = float_val x - float_val y)"

definition spec_session_valid :: "bool \<Rightarrow> real \<Rightarrow> real \<Rightarrow> real \<Rightarrow> bool" where
  \<comment> \<open>the specification's notion of a valid session: a token is present and the time since
      it was issued is at most the time-out\<close>
  "spec_session_valid token_present issued_at timeout now =
     (token_present \<and> now - issued_at \<le> timeout)"

definition exchange_fails :: "env \<Rightarrow> http_outcome \<Rightarrow> bool" where
  \<comment> \<open>the failures of the HTTP authentication exchange that the specification names: a
      transport failure (\<^verbatim>\<open>HTTPError\<close>, \<^verbatim>\<open>URLError\<close>), a response that is not JSON, and a
      JSON object without a token or with an empty one\<close>
  "exchange_fails env r = (case r of
       HTTPError code reason \<Rightarrow> True
     | URLError reason \<Rightarrow> True
     | HttpRaises x \<Rightarrow> False
     | Body payload \<Rightarrow>
         (case json_loads env payload of
            None \<Rightarrow> True
          | Some data \<Rightarrow>
              (case data of
                 JObj kvs \<Rightarrow>
                   (case map_of kvs ''SERVERWhoAmI'' of
                      None \<Rightarrow> True
                    | Some who \<Rightarrow>
                        (case who of
                           JObj inner \<Rightarrow>
                             (case map_of inner ''Id'' of
                                None \<Rightarrow> True
                              | Some tok \<Rightarrow> \<not> truthy_json tok)
                         | _ \<Rightarrow> False))
               | _ \<Rightarrow> False)))"

definition script_fails :: "proc_outcome \<Rightarrow> bool" where
  \<comment> \<open>the failures of the authentication script: it cannot be run or does not end in time,
      it exits with a non-zero status, or it prints nothing but white space\<close>
  "script_fails r = (case r of
       ProcRaises x \<Rightarrow> True
     | Exited returncode out err \<Rightarrow> (if returncode = 0 then strip out = [] else True))"

section \<open>Example inputs\<close>

definition two :: double where
  \<comment> \<open>the float \<^verbatim>\<open>2.0\<close>\<close>
  "two = Finite False 1 1"

definition zoom_with_default :: parsed_command where
  \<comment> \<open>a command like \<^verbatim>\<open>set_zoom\<close> whose parameter has the default \<^verbatim>\<open>2.0\<close>\<close>
  "zoom_with_default =
     \<lparr>pc_name = ''set_zoom'', pc_action = ''DLTVFOVMagnificationSet'', pc_description = [],
      pc_static_params = [],
      pc_param_specs =
        [\<lparr>ps_name = ''Magnification'', ps_type = Some TyFloat, ps_required = Some False,
          ps_default = Some (PyFloat two), ps_help = None\<rparr>]\<rparr>"

definition set_speed_command :: parsed_command where
  \<comment> \<open>what \<^verbatim>\<open>load_command("set_speed")\<close> returns\<close>
  "set_speed_command =
     \<lparr>pc_name = ''set_speed'', pc_action = ''PTSpeedModeSet'',
      pc_description = ''Update azimuth and elevation speed settings.'',
      pc_static_params = [],
      pc_param_specs = [param ''Azimuth_Speed'' TyInt ''Desired azimuth speed setting.'',
                        param ''Elevation_Speed'' TyInt ''Desired elevation speed setting.'']\<rparr>"

definition api0 :: api where
  \<comment> \<open>a client of the default camera whose session was issued at time 1000\<close>
  "api0 = \<lparr>camera_alias = DEFAULT_CAMERA, port = NEXUS_DEFAULT_PORT, host_override = None,
            session_timeout = whole 120, request_timeout = whole 5,
            session_id = JStr ''tok-1'', last_auth = whole 1000\<rparr>"

definition cam0 :: camera_control where
  \<comment> \<open>a script client of the same camera, with the same session\<close>
  "cam0 = \<lparr>AUTHENTICATE_SCRIPT = ''authenticate.sh'', GET_DEGREE = ''get_degree.sh'',
            GET_ZOOM = ''get_zoom.sh'', SET_ZOOM = ''set_zoom.sh'', MOVE_SCRIPT = ''move_to_pos.sh'',
            GET_SPEED = ''get_speed.sh'', camera_ip = FLIR2_IP,
            cc_session_id = Some ''tok-1'', last_auth_time = whole 1000,
            SESSION_TIMEOUT = whole 120\<rparr>"

definition api_late :: api where
  \<comment> \<open>a client whose session was issued at time 1.0, with a time-out of 1e16 seconds\<close>
  "api_late = \<lparr>camera_alias = DEFAULT_CAMERA, port = NEXUS_DEFAULT_PORT, host_override = None,
               session_timeout = whole 10000000000000000, request_timeout = whole 5,
               session_id = JStr ''tok-1'', last_auth = whole 1\<rparr>"

definition cam_late :: camera_control where
  \<comment> \<open>a script client with the same session and time-out\<close>
  "cam_late = \<lparr>AUTHENTICATE_SCRIPT = ''authenticate.sh'', GET_DEGREE = ''get_degree.sh'',
               GET_ZOOM = ''get_zoom.sh'', SET_ZOOM = ''set_zoom.sh'',
               MOVE_SCRIPT = ''move_to_pos.sh'', GET_SPEED = ''get_speed.sh'',
               camera_ip = FLIR2_IP, cc_session_id = Some ''tok-1'', last_auth_time = whole 1,
               SESSION_TIMEOUT = whole 10000000000000000\<rparr>"

definition position_output :: string where
  \<comment> \<open>what the position script prints\<close>
  \<open>position_output = ''{"PTAzimuthElevationGet": {"Azimuth": 12, "Elevation": -3}}''\<close>

definition position_json :: json where
  "position_json =
     JObj [(''PTAzimuthElevationGet'', JObj [(''Azimuth'', JInt 12), (''Elevation'', JInt (- 3))])]"

definition quiet_env :: "double \<Rightarrow> env" where
  \<comment> \<open>the clock stands at the given time; the network is down and no script starts\<close>
  "quiet_env now =
     \<lparr>clock = (\<lambda>n. now), urlopen = (\<lambda>n. URLError ''timed out''),
      subprocess = (\<lambda>n. ProcRaises ''FileNotFoundError''),
      json_loads = (\<lambda>s. None)\<rparr>"

definition http_error_env :: env where
  \<comment> \<open>at time 1060 the camera answers every request with status 500\<close>
  "http_error_env =
     \<lparr>clock = (\<lambda>n. whole 1060), urlopen = (\<lambda>n. HTTPError 500 ''Internal Server Error''),
      subprocess = (\<lambda>n. ProcRaises ''FileNotFoundError''),
      json_loads = (\<lambda>s. None)\<rparr>"

definition retry_env :: "proc_outcome \<Rightarrow> env" where
  \<comment> \<open>at time 1060 the first command script exits with status 1, the authentication script
      then prints a new token, and the second command script ends as given\<close>
  "retry_env second =
     \<lparr>clock = (\<lambda>n. whole 1060), urlopen = (\<lambda>n. URLError ''timed out''),
      subprocess = (\<lambda>n. if n = 1 then Exited 1 [] ''session expired''
                         else if n = 2 then Exited 0 '' tok-2 '' []
                         else second),
      json_loads = (\<lambda>s. if s = position_output then Some position_json else None)\<rparr>"

definition script_env :: "proc_outcome \<Rightarrow> env" where
  \<comment> \<open>at time 1060 every script ends as given\<close>
  "script_env outcome =
     \<lparr>clock = (\<lambda>n. whole 1060), urlopen = (\<lambda>n. URLError ''timed out''),
      subprocess = (\<lambda>n. outcome),
      json_loads = (\<lambda>s. if s = position_output then Some position_json else None)\<rparr>"

definition no_token_env :: env where
  \<comment> \<open>at time 1060 the camera answers every request with an object that carries no token\<close>
  \<open>no_token_env =
     \<lparr>clock = (\<lambda>n. whole 1060), urlopen = (\<lambda>n. Body ''{"SERVERWhoAmI": {}}''),
      subprocess = (\<lambda>n. ProcRaises ''FileNotFoundError''),
      json_loads = (\<lambda>s. if s = ''{"SERVERWhoAmI": {}}''
                         then Some (JObj [(''SERVERWhoAmI'', JObj [])]) else None)\<rparr>\<close>

section \<open>Parameter coercion\<close>

lemma supported_inputs:
  "sorted_strs (remdups (truthy @ falsy)) =
     [''0'', ''1'', ''f'', ''false'', ''n'', ''no'', ''off'', ''on'', ''t'', ''true'', ''y'', ''yes'']"
  by code_simp

text \<open>
  C7.  A parameter declared \<^verbatim>\<open>bool\<close> is matched after lower-casing: an input that
  lower-cases to one of 1, true, t, yes, y, on is sent as \<open>1\<close>, one that lower-cases to one
  of 0, false, f, no, n, off is sent as \<open>0\<close>, and any other input raises a
  \<^verbatim>\<open>ValueError\<close> whose message lists the twelve accepted inputs.
\<close>

theorem coerce_bool:
  assumes "ps_type spec = Some TyBool"
  shows "(lower val \<in> {''1'', ''true'', ''t'', ''yes'', ''y'', ''on''} \<longrightarrow>
            coerce_param_value name val spec = Inr ''1'')
       \<and> (lower val \<in> {''0'', ''false'', ''f'', ''no'', ''n'', ''off''} \<longrightarrow>
            coerce_param_value name val spec = Inr ''0'')
       \<and> (lower val \<notin> {''1'', ''true'', ''t'', ''yes'', ''y'', ''on'',
                         ''0'', ''false'', ''f'', ''no'', ''n'', ''off''} \<longrightarrow>
            coerce_param_value name val spec =
              Inl (ValueError (''Parameter '' @ quoted name @ '' expects a boolean value. '' @
                     ''Supported inputs: '' @
                     str_list_repr [''0'', ''1'', ''f'', ''false'', ''n'', ''no'', ''off'', ''on'',
                                    ''t'', ''true'', ''y'', ''yes''])))"
proof -
  have t: "set truthy = {''1'', ''true'', ''t'', ''yes'', ''y'', ''on''}"
    by (simp add: truthy_def)
  have f: "set falsy = {''0'', ''false'', ''f'', ''no'', ''n'', ''off''}"
    by (simp add: falsy_def)
  have disj: "set truthy \<inter> set falsy = {}"
    unfolding t f by simp
  show ?thesis
    using assms disj unfolding coerce_param_value_def Let_def supported_inputs
    unfolding t f by auto
qed

theorem coerce_bool_witness:
  "coerce_param_value ''flag'' ''T'' (param ''flag'' TyBool ''a switch'') = Inr ''1''
 \<and> coerce_param_value ''flag'' ''Yes'' (param ''flag'' TyBool ''a switch'') = Inr ''1''
 \<and> coerce_param_value ''flag'' ''OFF'' (param ''flag'' TyBool ''a switch'') = Inr ''0''
 \<and> coerce_param_value ''flag'' ''maybe'' (param ''flag'' TyBool ''a switch'') =
      Inl (ValueError (''Parameter '' @ quoted ''flag'' @ '' expects a boolean value. '' @
             ''Supported inputs: '' @
             str_list_repr [''0'', ''1'', ''f'', ''false'', ''n'', ''no'', ''off'', ''on'',
                            ''t'', ''true'', ''y'', ''yes'']))"
proof -
  have ty: "ps_type (param ''flag'' TyBool ''a switch'') = Some TyBool"
    by (simp add: param_def)
  have l1: "lower ''T'' = ''t''" by code_simp
  have l2: "lower ''Yes'' = ''yes''" by code_simp
  have l3: "lower ''OFF'' = ''off''" by code_simp
  have l4: "lower ''maybe'' = ''maybe''" by code_simp
  show ?thesis
    using coerce_bool [OF ty, of "''T''" "''flag''"] coerce_bool [OF ty, of "''Yes''" "''flag''"]
      coerce_bool [OF ty, of "''OFF''" "''flag''"] coerce_bool [OF ty, of "''maybe''" "''flag''"]
    unfolding l1 l2 l3 l4 by simp
qed

section \<open>Dictionaries and the query builder\<close>

lemma map_of_dict_set: "map_of (dict_set d k v) = (map_of d)(k \<mapsto> v)"
  by (induction d) (auto simp: fun_eq_iff)

lemma keys_dict_set: "fst ` set (dict_set d k v) = insert k (fst ` set d)"
  by (induction d) auto

lemma is_dict_dict_set: "is_dict d \<Longrightarrow> is_dict (dict_set d k v)"
  unfolding is_dict_def
proof (induction d)
  case Nil
  then show ?case by simp
next
  case (Cons p d)
  then show ?case using keys_dict_set [of d k v] by auto
qed

lemma dict_set_append_new:
  "k \<notin> fst ` set d \<Longrightarrow> dict_set d k v = d @ [(k, v)]"
  by (induction d) auto

lemma map_of_dict_update:
  "is_dict e \<Longrightarrow> map_of (dict_update d e) = map_of d ++ map_of e"
  unfolding dict_update_def is_dict_def
proof (induction e arbitrary: d)
  case Nil
  then show ?case by simp
next
  case (Cons p e)
  have dist: "distinct (map fst e)"
    using Cons.prems by simp
  have none: "map_of e (fst p) = None"
    using Cons.prems by (simp add: map_of_eq_None_iff)
  have ih: "map_of (foldl (\<lambda>acc kv. dict_set acc (fst kv) (snd kv)) (dict_set d (fst p) (snd p)) e)
          = map_of (dict_set d (fst p) (snd p)) ++ map_of e"
    by (rule Cons.IH [OF dist])
  have eq: "map_of (dict_set d (fst p) (snd p)) ++ map_of e = map_of d ++ map_of (p # e)"
  proof (rule ext)
    fix x
    show "(map_of (dict_set d (fst p) (snd p)) ++ map_of e) x = (map_of d ++ map_of (p # e)) x"
      using none by (cases p) (simp add: map_of_dict_set map_add_def split: option.splits)
  qed
  show ?case
    unfolding foldl_Cons ih eq ..
qed

lemma keys_dict_update:
  "fst ` set (dict_update d e) = fst ` set d \<union> fst ` set e"
  unfolding dict_update_def
  by (induction e arbitrary: d) (simp_all add: keys_dict_set)

lemma is_dict_dict_update: "is_dict d \<Longrightarrow> is_dict (dict_update d e)"
  unfolding dict_update_def
  by (induction e arbitrary: d) (auto simp: is_dict_dict_set)

lemma dict_update_append_new:
  "is_dict e \<Longrightarrow> fst ` set d \<inter> fst ` set e = {} \<Longrightarrow> dict_update d e = d @ e"
  unfolding dict_update_def is_dict_def
proof (induction e arbitrary: d)
  case Nil
  then show ?case by simp
next
  case (Cons p e)
  have new: "fst p \<notin> fst ` set d" using Cons.prems by auto
  have step: "dict_set d (fst p) (snd p) = d @ [p]"
    using dict_set_append_new [OF new, of "snd p"] by simp
  have "fst ` set (d @ [p]) \<inter> fst ` set e = {}"
    using Cons.prems by auto
  then show ?case using Cons step by simp
qed


lemma map_of_jstr:
  "map_of (map (\<lambda>kv. (fst kv, JStr (snd kv))) d) = map_option JStr \<circ> map_of d"
  by (induction d) (auto simp: fun_eq_iff)

lemma is_dict_jstr: "is_dict d \<Longrightarrow> is_dict (map (\<lambda>kv. (fst kv, JStr (snd kv))) d)"
  by (simp add: is_dict_def comp_def)

lemma keys_jstr: "fst ` set (map (\<lambda>kv. (fst kv, JStr (snd kv))) d) = fst ` set d"
  by (induction d) auto

lemma is_dict_overrides: "is_dict TOKEN_OVERRIDE_PARAMS"
  by (simp add: is_dict_def TOKEN_OVERRIDE_PARAMS_def)

lemma build_query_overrides:
  "build_query command session dynamic_params True =
     dict_update (build_query command session dynamic_params False) TOKEN_OVERRIDE_PARAMS"
  by (simp add: build_query_def Let_def)

lemma build_query_plain:
  "build_query command session dynamic_params False =
     dict_update (dict_update [(''session'', session), (''action'', JStr (pc_action command))]
                    (pc_static_params command))
       (map (\<lambda>kv. (fst kv, JStr (snd kv))) dynamic_params)"
  by (simp add: build_query_def Let_def)

text \<open>
  C5.  For every command, session token and dictionary of coerced parameters,
  \<^verbatim>\<open>build_query\<close> merges the session token and the action first, then the command's static
  parameters, then the dynamic parameters, and, when the override parameters are asked for,
  the pair \<^verbatim>\<open>tokenoverride=1\<close>, \<^verbatim>\<open>_=0\<close> last: a later layer wins a key collision, so the
  override values win over every static and dynamic parameter; the query has every static,
  dynamic and override key; and the override pair stands at the end of the query whenever
  its keys did not occur before.
\<close>

theorem build_query_merge_order:
  assumes "is_dict (pc_static_params command)" and "is_dict dynamic_params"
  shows "map_of (build_query command session dynamic_params False) =
           map_of [(''session'', session), (''action'', JStr (pc_action command))]
             ++ map_of (pc_static_params command)
             ++ (map_option JStr \<circ> map_of dynamic_params)
       \<and> map_of (build_query command session dynamic_params True) =
           map_of (build_query command session dynamic_params False) ++ map_of TOKEN_OVERRIDE_PARAMS
       \<and> map_of (build_query command session dynamic_params True) ''tokenoverride'' = Some (JStr ''1'')
       \<and> map_of (build_query command session dynamic_params True) ''_'' = Some (JStr ''0'')
       \<and> fst ` set (build_query command session dynamic_params True) =
           {''session'', ''action''} \<union> fst ` set (pc_static_params command)
             \<union> fst ` set dynamic_params \<union> {''tokenoverride'', ''_''}
       \<and> is_dict (build_query command session dynamic_params True)
       \<and> (''tokenoverride'' \<notin> fst ` set (build_query command session dynamic_params False) \<and>
          ''_'' \<notin> fst ` set (build_query command session dynamic_params False) \<longrightarrow>
          build_query command session dynamic_params True =
            build_query command session dynamic_params False @ TOKEN_OVERRIDE_PARAMS)"
proof -
  let ?base = "[(''session'', session), (''action'', JStr (pc_action command))]"
  let ?plain = "build_query command session dynamic_params False"
  let ?full = "build_query command session dynamic_params True"
  have plain: "map_of ?plain = map_of ?base ++ map_of (pc_static_params command)
                 ++ (map_option JStr \<circ> map_of dynamic_params)"
    unfolding build_query_plain
    by (simp only: map_of_dict_update [OF is_dict_jstr [OF assms(2)]]
          map_of_dict_update [OF assms(1)] map_of_jstr)
  have full: "map_of ?full = map_of ?plain ++ map_of TOKEN_OVERRIDE_PARAMS"
    unfolding build_query_overrides by (rule map_of_dict_update [OF is_dict_overrides])
  have tok: "map_of ?full ''tokenoverride'' = Some (JStr ''1'')"
    unfolding full by (simp add: TOKEN_OVERRIDE_PARAMS_def)
  have us: "map_of ?full ''_'' = Some (JStr ''0'')"
    unfolding full by (simp add: TOKEN_OVERRIDE_PARAMS_def)
  have keys: "fst ` set ?full = {''session'', ''action''} \<union> fst ` set (pc_static_params command)
                \<union> fst ` set dynamic_params \<union> {''tokenoverride'', ''_''}"
    unfolding build_query_overrides build_query_plain keys_dict_update keys_jstr
    by (auto simp: TOKEN_OVERRIDE_PARAMS_def)
  have base: "is_dict ?base"
    by (simp add: is_dict_def)
  have dict: "is_dict ?full"
    unfolding build_query_overrides build_query_plain
    by (intro is_dict_dict_update base)
  have last: "''tokenoverride'' \<notin> fst ` set ?plain \<and> ''_'' \<notin> fst ` set ?plain \<longrightarrow>
                ?full = ?plain @ TOKEN_OVERRIDE_PARAMS"
  proof
    assume new: "''tokenoverride'' \<notin> fst ` set ?plain \<and> ''_'' \<notin> fst ` set ?plain"
    have "fst ` set ?plain \<inter> fst ` set TOKEN_OVERRIDE_PARAMS = {}"
      using new by (simp add: TOKEN_OVERRIDE_PARAMS_def)
    then show "?full = ?plain @ TOKEN_OVERRIDE_PARAMS"
      unfolding build_query_overrides by (rule dict_update_append_new [OF is_dict_overrides])
  qed
  show ?thesis
    using plain full tok us keys dict last by blast
qed

theorem build_query_merge_order_witness:
  "build_query
     \<lparr>pc_name = ''center'', pc_action = ''PTAzimuthElevationOnScreenSet'', pc_description = [],
      pc_static_params = [(''Cam_id'', JStr ''0'')], pc_param_specs = []\<rparr>
     (JStr ''abc'') [(''ScreenX'', ''1'')] True =
   [(''session'', JStr ''abc''), (''action'', JStr ''PTAzimuthElevationOnScreenSet''),
    (''Cam_id'', JStr ''0''), (''ScreenX'', JStr ''1''),
    (''tokenoverride'', JStr ''1''), (''_'', JStr ''0'')]
 \<and> map_of (build_query
      \<lparr>pc_name = ''center'', pc_action = ''PTAzimuthElevationOnScreenSet'', pc_description = [],
       pc_static_params = [(''Cam_id'', JStr ''0''), (''_'', JStr ''7'')], pc_param_specs = []\<rparr>
      (JStr ''abc'') [(''ScreenX'', ''1''), (''tokenoverride'', ''9'')] True) ''tokenoverride'' =
     Some (JStr ''1'')"
proof -
  let ?c = "\<lparr>pc_name = ''center'', pc_action = ''PTAzimuthElevationOnScreenSet'', pc_description = [],
      pc_static_params = [(''Cam_id'', JStr ''0'')], pc_param_specs = []\<rparr>"
  let ?c' = "\<lparr>pc_name = ''center'', pc_action = ''PTAzimuthElevationOnScreenSet'', pc_description = [],
       pc_static_params = [(''Cam_id'', JStr ''0''), (''_'', JStr ''7'')], pc_param_specs = []\<rparr>"
  have s: "is_dict (pc_static_params ?c)" by (simp add: is_dict_def)
  have d: "is_dict [(''ScreenX'', ''1'')]" by (simp add: is_dict_def)
  have s': "is_dict (pc_static_params ?c')" by (simp add: is_dict_def)
  have d': "is_dict [(''ScreenX'', ''1''), (''tokenoverride'', ''9'')]" by (simp add: is_dict_def)
  have plain: "build_query ?c (JStr ''abc'') [(''ScreenX'', ''1'')] False =
     [(''session'', JStr ''abc''), (''action'', JStr ''PTAzimuthElevationOnScreenSet''),
      (''Cam_id'', JStr ''0''), (''ScreenX'', JStr ''1'')]"
    by (simp add: build_query_def dict_update_def)
  show ?thesis
    using build_query_merge_order [OF s d, of "JStr ''abc''"]
      build_query_merge_order [OF s' d', of "JStr ''abc''"]
    unfolding plain by (simp add: TOKEN_OVERRIDE_PARAMS_def)
qed
section \<open>Resolving parameters\<close>

lemma coerce_error_shape:
  assumes "coerce_param_value name val spec = Inl e"
  shows "(\<exists>rest. e = ValueError (''P'' @ rest)) \<or> (\<exists>rest. e = ValueError (''Una'' @ rest))"
  using assms
  by (auto simp: coerce_param_value_def Let_def unable_to_convert_def
           split: if_splits converter.splits option.splits)

lemma coerce_not_missing:
  "coerce_param_value name val spec \<noteq> Inl (ValueError (missing_required n c))"
  using coerce_error_shape [of name val spec "ValueError (missing_required n c)"]
  by (auto simp: missing_required_def)

lemma coerce_not_unexpected:
  "coerce_param_value name val spec \<noteq> Inl (ValueError (unexpected_parameter c xs))"
  using coerce_error_shape [of name val spec "ValueError (unexpected_parameter c xs)"]
  by (auto simp: unexpected_parameter_def)

lemma coerce_not_argparse:
  "coerce_param_value name val spec \<noteq> Inl (ArgparseExit msg)"
  using coerce_error_shape [of name val spec "ArgparseExit msg"] by auto

lemma missing_required_inj:
  "missing_required n c = missing_required n' c \<longleftrightarrow> n = n'"
  by (auto simp: missing_required_def quoted_def)

lemma missing_not_unexpected: "missing_required n c \<noteq> unexpected_parameter c' xs"
  by (simp add: missing_required_def unexpected_parameter_def)

lemma missing_not_unexpecteds: "missing_required n c \<noteq> unexpected_parameters c' xs"
  by (simp add: missing_required_def unexpected_parameters_def)

lemma execute_coerce_skip:
  assumes "\<forall>q\<in>set pre. resolves_api params q"
  shows "\<exists>acc'. execute_coerce cn (pre @ rest) params acc = execute_coerce cn rest params acc'"
  using assms
proof (induction pre arbitrary: acc)
  case Nil
  then show ?case by auto
next
  case (Cons q pre)
  have q: "resolves_api params q" and pre: "\<forall>q\<in>set pre. resolves_api params q"
    using Cons.prems by auto
  show ?case
  proof (cases "map_of params (ps_name q)")
    case None
    then have notin: "ps_name q \<notin> fst ` set params"
      by (simp add: map_of_eq_None_iff)
    then have nr: "\<not> (is_required q \<and> ps_default q = None)"
      using q by (simp add: resolves_api_def absent_required_def)
    show ?thesis
      using None nr Cons.IH [OF pre] by (cases "ps_default q") (auto simp: Let_def)
  next
    case (Some v)
    then obtain s where s: "coerce_param_value (ps_name q) (py_str v) q = Inr s"
      using q by (cases "coerce_param_value (ps_name q) (py_str v) q")
        (auto simp: resolves_api_def coercion_fails_api_def)
    show ?thesis
      using Some s Cons.IH [OF pre] by (auto simp: Let_def)
  qed
qed

lemma execute_coerce_missing:
  assumes "\<forall>q\<in>set pre. resolves_api params q" and "absent_required (fst ` set params) p"
  shows "execute_coerce cn (pre @ p # post) params acc = Inl (ValueError (missing_required (ps_name p) cn))"
proof -
  obtain acc' where "execute_coerce cn (pre @ p # post) params acc = execute_coerce cn (p # post) params acc'"
    using execute_coerce_skip [OF assms(1)] by blast
  moreover have "map_of params (ps_name p) = None"
    using assms(2) by (simp add: absent_required_def map_of_eq_None_iff)
  ultimately show ?thesis
    using assms(2) by (simp add: absent_required_def Let_def)
qed

lemma execute_coerce_ok:
  assumes "\<forall>q\<in>set specs. resolves_api params q"
  shows "\<exists>out. execute_coerce cn specs params acc = Inr out"
  using execute_coerce_skip [OF assms, of cn "[]" acc] by simp

lemma execute_coerce_error:
  assumes "execute_coerce cn specs params acc = Inl e"
  shows "\<exists>pre p post. specs = pre @ p # post \<and> (\<forall>q\<in>set pre. resolves_api params q) \<and>
           ((absent_required (fst ` set params) p \<and> e = ValueError (missing_required (ps_name p) cn)) \<or>
            (\<exists>v. map_of params (ps_name p) = Some v \<and>
                 coerce_param_value (ps_name p) (py_str v) p = Inl e))"
  using assms
proof (induction specs arbitrary: acc)
  case Nil
  then show ?case by simp
next
  case (Cons q specs)
  show ?case
  proof (cases "resolves_api params q")
    case True
    have "\<exists>acc'. execute_coerce cn (q # specs) params acc = execute_coerce cn specs params acc'"
      using execute_coerce_skip [of "[q]" params cn specs acc] True by simp
    then obtain acc' where "execute_coerce cn specs params acc' = Inl e"
      using Cons.prems by auto
    from Cons.IH [OF this] obtain pre p post where
      d: "specs = pre @ p # post" "\<forall>q\<in>set pre. resolves_api params q"
        "(absent_required (fst ` set params) p \<and> e = ValueError (missing_required (ps_name p) cn)) \<or>
         (\<exists>v. map_of params (ps_name p) = Some v \<and> coerce_param_value (ps_name p) (py_str v) p = Inl e)"
      by blast
    have "q # specs = (q # pre) @ p # post" using d(1) by simp
    moreover have "\<forall>x\<in>set (q # pre). resolves_api params x" using d(2) True by simp
    ultimately show ?thesis using d(3) by blast
  next
    case False
    have "(absent_required (fst ` set params) q \<and> e = ValueError (missing_required (ps_name q) cn)) \<or>
          (\<exists>v. map_of params (ps_name q) = Some v \<and> coerce_param_value (ps_name q) (py_str v) q = Inl e)"
    proof (cases "map_of params (ps_name q)")
      case None
      then have "ps_name q \<notin> fst ` set params" by (simp add: map_of_eq_None_iff)
      then have ar: "absent_required (fst ` set params) q"
        using False None by (simp add: resolves_api_def coercion_fails_api_def absent_required_def)
      then show ?thesis
        using Cons.prems None by (simp add: absent_required_def Let_def)
    next
      case (Some v)
      then have "ps_name q \<in> fst ` set params"
        using map_of_SomeD [of params "ps_name q" v] by force
      then have "coercion_fails_api params q"
        using False by (simp add: resolves_api_def absent_required_def)
      then obtain e' where "coerce_param_value (ps_name q) (py_str v) q = Inl e'"
        using Some by (cases "coerce_param_value (ps_name q) (py_str v) q") (auto simp: coercion_fails_api_def)
      then show ?thesis using Cons.prems Some by (simp add: Let_def)
    qed
    then show ?thesis by (intro exI [of _ "[]"] exI [of _ q] exI [of _ specs]) simp
  qed
qed


lemma execute_coerce_keeps:
  assumes "execute_coerce cn specs params acc = Inr out" and "n \<notin> ps_name ` set specs"
  shows "map_of out n = map_of acc n"
  using assms
proof (induction specs arbitrary: acc)
  case Nil
  then show ?case by simp
next
  case (Cons q specs)
  have n: "n \<noteq> ps_name q" and rest: "n \<notin> ps_name ` set specs"
    using Cons.prems(2) by auto
  show ?case
    using Cons.prems(1) Cons.IH [OF _ rest] n
    by (auto simp: Let_def map_of_dict_set split: option.splits if_splits sum.splits)
qed

lemma execute_coerce_default:
  assumes "execute_coerce cn specs params acc = Inr out"
    and "distinct (map ps_name specs)" and "p \<in> set specs"
    and "map_of params (ps_name p) = None" and "ps_default p = Some d"
  shows "map_of out (ps_name p) = Some (py_str d)"
  using assms(1,2,3)
proof (induction specs arbitrary: acc)
  case Nil
  then show ?case by simp
next
  case (Cons q specs)
  show ?case
  proof (cases "p = q")
    case True
    have notin: "ps_name p \<notin> ps_name ` set specs"
      using Cons.prems(2) True by auto
    have "execute_coerce cn specs params (dict_set acc (ps_name p) (py_str d)) = Inr out"
      using Cons.prems(1) True assms(4,5) by (simp add: Let_def)
    from execute_coerce_keeps [OF this notin] show ?thesis
      by (simp add: map_of_dict_set)
  next
    case False
    then have p: "p \<in> set specs" using Cons.prems(3) by simp
    have dist: "distinct (map ps_name specs)" using Cons.prems(2) by simp
    obtain acc' where "execute_coerce cn specs params acc' = Inr out"
      using Cons.prems(1) by (auto simp: Let_def split: option.splits if_splits sum.splits)
    from Cons.IH [OF this dist p] show ?thesis .
  qed
qed

lemma map_of_dict_pop: "map_of (dict_pop d k) n = (if n = k then None else map_of d n)"
  unfolding dict_pop_def by (induction d) auto

lemma map_of_filter_keys:
  "k \<notin> S \<Longrightarrow> map_of (filter (\<lambda>kv. fst kv \<notin> S) d) k = map_of d k"
  by (induction d) auto

lemma dict_pop_absent: "map_of d k = None \<Longrightarrow> dict_pop d k = d"
  unfolding dict_pop_def by (induction d) (auto split: if_splits)

lemma absent_required_map_of:
  "absent_required (fst ` set d) q \<longleftrightarrow>
     map_of d (ps_name q) = None \<and> is_required q \<and> ps_default q = None"
  by (simp add: absent_required_def map_of_eq_None_iff)

lemma resolves_cli_cong:
  "map_of d (ps_name q) = map_of d' (ps_name q) \<Longrightarrow> resolves_cli d q = resolves_cli d' q"
  by (simp add: resolves_cli_def absent_required_map_of coercion_fails_cli_def)

lemma main_coerce_skip:
  assumes "\<forall>q\<in>set pre. resolves_cli provided q" and "distinct (map ps_name pre)"
  shows "\<exists>acc'. main_coerce cn (pre @ rest) provided acc =
           main_coerce cn rest (filter (\<lambda>kv. fst kv \<notin> ps_name ` set pre) provided) acc'"
  using assms
proof (induction pre arbitrary: acc provided)
  case Nil
  then show ?case by auto
next
  case (Cons q pre)
  have q: "resolves_cli provided q" and pre: "\<forall>x\<in>set pre. resolves_cli provided x"
    and dist: "distinct (map ps_name pre)" and notin: "ps_name q \<notin> ps_name ` set pre"
    using Cons.prems by auto
  let ?popped = "dict_pop provided (ps_name q)"
  have pre': "\<forall>x\<in>set pre. resolves_cli ?popped x"
  proof
    fix x assume x: "x \<in> set pre"
    then have "ps_name x \<noteq> ps_name q" using notin by (metis imageI)
    then have "map_of ?popped (ps_name x) = map_of provided (ps_name x)"
      by (simp add: map_of_dict_pop)
    from resolves_cli_cong [OF this] show "resolves_cli ?popped x" using pre x by simp
  qed
  have filt: "filter (\<lambda>kv. fst kv \<notin> ps_name ` set pre) ?popped =
              filter (\<lambda>kv. fst kv \<notin> ps_name ` set (q # pre)) provided"
    unfolding dict_pop_def by (induction provided) auto
  show ?case
  proof (cases "map_of provided (ps_name q)")
    case None
    then have nr: "\<not> (is_required q \<and> ps_default q = None)"
      using q by (simp add: resolves_cli_def absent_required_map_of)
    have same: "?popped = provided" using None by (rule dict_pop_absent)
    show ?thesis
      using None nr Cons.IH [OF pre dist] filt same
      by (cases "ps_default q") (auto simp: Let_def)
  next
    case (Some v)
    then obtain s where s: "coerce_param_value (ps_name q) v q = Inr s"
      using q by (cases "coerce_param_value (ps_name q) v q")
        (auto simp: resolves_cli_def coercion_fails_cli_def)
    show ?thesis
      using Some s Cons.IH [OF pre' dist] filt by (auto simp: Let_def)
  qed
qed

lemma main_coerce_missing:
  assumes "\<forall>q\<in>set pre. resolves_cli provided q" and "distinct (map ps_name (pre @ p # post))"
    and "absent_required (fst ` set provided) p"
  shows "main_coerce cn (pre @ p # post) provided acc = Inl (ArgparseExit (missing_required (ps_name p) cn))"
proof -
  have dist: "distinct (map ps_name pre)" using assms(2) by simp
  let ?rest = "filter (\<lambda>kv. fst kv \<notin> ps_name ` set pre) provided"
  obtain acc' where eq: "main_coerce cn (pre @ p # post) provided acc = main_coerce cn (p # post) ?rest acc'"
    using main_coerce_skip [OF assms(1) dist] by blast
  have "ps_name p \<notin> fst ` set ?rest"
    using assms(3) by (auto simp: absent_required_def)
  then have "map_of ?rest (ps_name p) = None"
    by (simp add: map_of_eq_None_iff)
  then show ?thesis
    unfolding eq using assms(3) by (simp add: absent_required_def Let_def)
qed

lemma main_coerce_ok:
  assumes "\<forall>q\<in>set specs. resolves_cli provided q" and "distinct (map ps_name specs)"
  shows "\<exists>out. main_coerce cn specs provided acc =
           Inr (filter (\<lambda>kv. fst kv \<notin> ps_name ` set specs) provided, out)"
  using main_coerce_skip [OF assms, of cn "[]" acc] by simp

lemma main_coerce_error:
  assumes "main_coerce cn specs provided acc = Inl e" and "distinct (map ps_name specs)"
  shows "\<exists>pre p post. specs = pre @ p # post \<and> (\<forall>q\<in>set pre. resolves_cli provided q) \<and>
           ((absent_required (fst ` set provided) p \<and> e = ArgparseExit (missing_required (ps_name p) cn)) \<or>
            (\<exists>v. map_of provided (ps_name p) = Some v \<and> coerce_param_value (ps_name p) v p = Inl e))"
proof -
  let ?ok = "resolves_cli provided"
  let ?pre = "takeWhile ?ok specs"
  have pre_ok: "\<forall>q\<in>set ?pre. ?ok q"
    by (auto dest: set_takeWhileD)
  have split: "specs = ?pre @ dropWhile ?ok specs" by simp
  have dpre: "distinct (map ps_name ?pre)"
    using assms(2) by (metis distinct_append map_append split)
  show ?thesis
  proof (cases "dropWhile ?ok specs")
    case Nil
    then have "\<forall>q\<in>set specs. ?ok q"
      by (metis append_Nil2 pre_ok split)
    from main_coerce_ok [OF this assms(2), of cn acc] show ?thesis using assms(1) by auto
  next
    case (Cons p post)
    then have bad: "\<not> ?ok p" by (metis hd_dropWhile list.distinct(1) list.sel(1))
    have specs: "specs = ?pre @ p # post" using split Cons by simp
    let ?rest = "filter (\<lambda>kv. fst kv \<notin> ps_name ` set ?pre) provided"
    obtain acc' where eq: "main_coerce cn specs provided acc = main_coerce cn (p # post) ?rest acc'"
      using main_coerce_skip [OF pre_ok dpre, of cn "p # post" acc] specs by auto
    have pn: "ps_name p \<notin> ps_name ` set ?pre"
      using assms(2) specs by (metis distinct_append distinct.simps(2) image_set map_append list.simps(9) disjoint_iff list.set_intros(1))
    have same: "map_of ?rest (ps_name p) = map_of provided (ps_name p)"
      using pn by (rule map_of_filter_keys)
    have "(absent_required (fst ` set provided) p \<and> e = ArgparseExit (missing_required (ps_name p) cn)) \<or>
            (\<exists>v. map_of provided (ps_name p) = Some v \<and> coerce_param_value (ps_name p) v p = Inl e)"
    proof (cases "map_of provided (ps_name p)")
      case None
      then have "absent_required (fst ` set provided) p"
        using bad by (simp add: resolves_cli_def coercion_fails_cli_def)
      then show ?thesis
        using assms(1) None same unfolding eq by (simp add: absent_required_map_of Let_def)
    next
      case (Some v)
      then have "coercion_fails_cli provided p"
        using bad by (simp add: resolves_cli_def absent_required_map_of)
      then obtain e' where "coerce_param_value (ps_name p) v p = Inl e'"
        using Some by (cases "coerce_param_value (ps_name p) v p") (auto simp: coercion_fails_cli_def)
      then show ?thesis using assms(1) Some same unfolding eq by (simp add: Let_def)
    qed
    then show ?thesis using specs pre_ok by blast
  qed
qed

lemma main_coerce_keeps:
  assumes "main_coerce cn specs provided acc = Inr (rest, out)" and "n \<notin> ps_name ` set specs"
  shows "map_of out n = map_of acc n"
  using assms
proof (induction specs arbitrary: acc provided)
  case Nil
  then show ?case by simp
next
  case (Cons q specs)
  have n: "n \<noteq> ps_name q" and rest: "n \<notin> ps_name ` set specs"
    using Cons.prems(2) by auto
  show ?case
    using Cons.prems(1) Cons.IH [OF _ rest] n
    by (auto simp: Let_def map_of_dict_set split: option.splits if_splits sum.splits)
qed

lemma main_coerce_default:
  assumes "main_coerce cn specs provided acc = Inr (rest, out)"
    and "distinct (map ps_name specs)" and "p \<in> set specs"
    and "map_of provided (ps_name p) = None" and "ps_default p = Some d"
  shows "map_of out (ps_name p) = Some (py_str d)"
  using assms(1,2,3,4)
proof (induction specs arbitrary: acc provided)
  case Nil
  then show ?case by simp
next
  case (Cons q specs)
  show ?case
  proof (cases "p = q")
    case True
    have notin: "ps_name p \<notin> ps_name ` set specs"
      using Cons.prems(2) True by auto
    have "main_coerce cn specs provided (dict_set acc (ps_name p) (py_str d)) = Inr (rest, out)"
      using Cons.prems(1,4) True assms(5) by (simp add: Let_def)
    from main_coerce_keeps [OF this notin] show ?thesis
      by (simp add: map_of_dict_set)
  next
    case False
    then have p: "p \<in> set specs" using Cons.prems(3) by simp
    have dist: "distinct (map ps_name specs)" using Cons.prems(2) by simp
    obtain acc' provided' where step: "main_coerce cn specs provided' acc' = Inr (rest, out)"
      and absent: "map_of provided' (ps_name p) = None"
      using Cons.prems(1,4)
      by (auto simp: Let_def map_of_dict_pop split: option.splits if_splits sum.splits)
    from Cons.IH [OF step dist p absent] show ?thesis .
  qed
qed

lemma unexpected_not_missing: "unexpected_parameter c xs \<noteq> missing_required n c'"
  by (simp add: missing_required_def unexpected_parameter_def)

lemma unexpecteds_not_missing: "unexpected_parameters c xs \<noteq> missing_required n c'"
  by (simp add: missing_required_def unexpected_parameters_def)

lemma execute_coerce_blocked:
  assumes "\<not> (\<forall>q\<in>set specs. resolves_api params q)"
  shows "\<exists>e. execute_coerce cn specs params acc = Inl e"
  using assms
proof (induction specs arbitrary: acc)
  case Nil
  then show ?case by simp
next
  case (Cons q specs)
  show ?case
  proof (cases "resolves_api params q")
    case True
    then have "\<not> (\<forall>x\<in>set specs. resolves_api params x)" using Cons.prems by simp
    from Cons.IH [OF this] have ih: "\<And>acc. \<exists>e. execute_coerce cn specs params acc = Inl e" .
    obtain acc' where "execute_coerce cn (q # specs) params acc = execute_coerce cn specs params acc'"
      using execute_coerce_skip [of "[q]" params cn specs acc] True by auto
    then show ?thesis using ih [of acc'] by simp
  next
    case False
    show ?thesis
    proof (cases "map_of params (ps_name q)")
      case None
      then have "is_required q \<and> ps_default q = None"
        using False by (simp add: resolves_api_def coercion_fails_api_def absent_required_map_of)
      then show ?thesis using None by (simp add: Let_def)
    next
      case (Some v)
      then have "coercion_fails_api params q"
        using False by (simp add: resolves_api_def absent_required_map_of)
      then obtain e where "coerce_param_value (ps_name q) (py_str v) q = Inl e"
        using Some by (cases "coerce_param_value (ps_name q) (py_str v) q") (auto simp: coercion_fails_api_def)
      then show ?thesis using Some by (simp add: Let_def)
    qed
  qed
qed

lemma main_coerce_blocked:
  assumes "\<not> (\<forall>q\<in>set specs. resolves_cli provided q)" and "distinct (map ps_name specs)"
  shows "\<exists>e. main_coerce cn specs provided acc = Inl e"
proof -
  obtain pre p post where specs: "specs = pre @ p # post" and bad: "\<not> resolves_cli provided p"
    and pre: "\<forall>q\<in>set pre. \<not> \<not> resolves_cli provided q"
    using split_list_first_prop [of specs "\<lambda>q. \<not> resolves_cli provided q"] assms(1) by blast
  have pre_ok: "\<forall>q\<in>set pre. resolves_cli provided q" using pre by simp
  have dpre: "distinct (map ps_name pre)" using assms(2) specs by simp
  let ?rest = "filter (\<lambda>kv. fst kv \<notin> ps_name ` set pre) provided"
  obtain acc' where eq: "main_coerce cn specs provided acc = main_coerce cn (p # post) ?rest acc'"
    using main_coerce_skip [OF pre_ok dpre, of cn "p # post" acc] specs by auto
  have pn: "ps_name p \<notin> ps_name ` set pre"
    using assms(2) specs by auto
  have same: "map_of ?rest (ps_name p) = map_of provided (ps_name p)"
    using pn by (rule map_of_filter_keys)
  show ?thesis
  proof (cases "map_of provided (ps_name p)")
    case None
    then have "is_required p \<and> ps_default p = None"
      using bad by (simp add: resolves_cli_def coercion_fails_cli_def absent_required_map_of)
    then show ?thesis unfolding eq using None same by (simp add: Let_def)
  next
    case (Some v)
    then have "coercion_fails_cli provided p"
      using bad by (simp add: resolves_cli_def absent_required_map_of)
    then obtain e where "coerce_param_value (ps_name p) v p = Inl e"
      using Some by (cases "coerce_param_value (ps_name p) v p") (auto simp: coercion_fails_cli_def)
    then show ?thesis unfolding eq using Some same by (simp add: Let_def)
  qed
qed

lemma execute_resolve_missing_iff:
  "(\<exists>n. execute_resolve cn command params = Inl (ValueError (missing_required n cn))) \<longleftrightarrow>
   (\<exists>pre p post. pc_param_specs command = pre @ p # post \<and>
      (\<forall>q\<in>set pre. resolves_api params q) \<and> absent_required (fst ` set params) p)"
proof
  assume "\<exists>n. execute_resolve cn command params = Inl (ValueError (missing_required n cn))"
  then obtain n where n: "execute_resolve cn command params = Inl (ValueError (missing_required n cn))" ..
  have "execute_coerce cn (pc_param_specs command) params [] = Inl (ValueError (missing_required n cn))"
    using n
    by (auto simp: execute_resolve_def Let_def unexpected_not_missing split: sum.splits if_splits)
  from execute_coerce_error [OF this] show "\<exists>pre p post. pc_param_specs command = pre @ p # post \<and>
      (\<forall>q\<in>set pre. resolves_api params q) \<and> absent_required (fst ` set params) p"
    using coerce_not_missing by blast
next
  assume "\<exists>pre p post. pc_param_specs command = pre @ p # post \<and>
      (\<forall>q\<in>set pre. resolves_api params q) \<and> absent_required (fst ` set params) p"
  then obtain pre p post where d: "pc_param_specs command = pre @ p # post"
    "\<forall>q\<in>set pre. resolves_api params q" "absent_required (fst ` set params) p" by blast
  have "execute_resolve cn command params = Inl (ValueError (missing_required (ps_name p) cn))"
    using execute_coerce_missing [OF d(2,3), of cn post "[]"] d(1) by (simp add: execute_resolve_def)
  then show "\<exists>n. execute_resolve cn command params = Inl (ValueError (missing_required n cn))" ..
qed

lemma execute_resolve_unexpected_iff:
  "(\<exists>xs. execute_resolve cn command params = Inl (ValueError (unexpected_parameter cn xs))) \<longleftrightarrow>
   (\<forall>q\<in>set (pc_param_specs command). resolves_api params q) \<and>
   \<not> fst ` set params \<subseteq> ps_name ` set (pc_param_specs command)"
proof
  assume "\<exists>xs. execute_resolve cn command params = Inl (ValueError (unexpected_parameter cn xs))"
  then obtain xs where xs: "execute_resolve cn command params = Inl (ValueError (unexpected_parameter cn xs))" ..
  have noerr: "\<not> (\<exists>e. execute_coerce cn (pc_param_specs command) params [] = Inl e)"
  proof
    assume "\<exists>e. execute_coerce cn (pc_param_specs command) params [] = Inl e"
    then obtain e where e: "execute_coerce cn (pc_param_specs command) params [] = Inl e" ..
    then have "e = ValueError (unexpected_parameter cn xs)"
      using xs by (simp add: execute_resolve_def)
    with execute_coerce_error [OF e] show False
      using coerce_not_unexpected missing_not_unexpected by (metis exn.inject(1))
  qed
  then have ok: "\<forall>q\<in>set (pc_param_specs command). resolves_api params q"
    using execute_coerce_blocked by blast
  have "\<not> fst ` set params \<subseteq> ps_name ` set (pc_param_specs command)"
    using xs noerr
    by (auto simp: execute_resolve_def Let_def filter_empty_conv split: sum.splits if_splits)
  with ok show "(\<forall>q\<in>set (pc_param_specs command). resolves_api params q) \<and>
     \<not> fst ` set params \<subseteq> ps_name ` set (pc_param_specs command)" ..
next
  assume a: "(\<forall>q\<in>set (pc_param_specs command). resolves_api params q) \<and>
     \<not> fst ` set params \<subseteq> ps_name ` set (pc_param_specs command)"
  then obtain out where "execute_coerce cn (pc_param_specs command) params [] = Inr out"
    using execute_coerce_ok by blast
  moreover have "filter (\<lambda>k. k \<notin> ps_name ` set (pc_param_specs command)) (map fst params) \<noteq> []"
    using a by (auto simp: filter_empty_conv)
  ultimately have "execute_resolve cn command params =
      Inl (ValueError (unexpected_parameter cn
             (remdups (filter (\<lambda>k. k \<notin> ps_name ` set (pc_param_specs command)) (map fst params)))))"
    by (simp add: execute_resolve_def Let_def)
  then show "\<exists>xs. execute_resolve cn command params = Inl (ValueError (unexpected_parameter cn xs))" ..
qed

lemma main_resolve_missing_iff:
  assumes "distinct (map ps_name (pc_param_specs command))"
  shows "(\<exists>n. main_resolve command provided = Inl (ArgparseExit (missing_required n (pc_name command)))) \<longleftrightarrow>
   (\<exists>pre p post. pc_param_specs command = pre @ p # post \<and>
      (\<forall>q\<in>set pre. resolves_cli provided q) \<and> absent_required (fst ` set provided) p)"
proof
  assume "\<exists>n. main_resolve command provided = Inl (ArgparseExit (missing_required n (pc_name command)))"
  then obtain n where n: "main_resolve command provided = Inl (ArgparseExit (missing_required n (pc_name command)))" ..
  have "main_coerce (pc_name command) (pc_param_specs command) provided [] =
          Inl (ArgparseExit (missing_required n (pc_name command)))"
    using n
    by (auto simp: main_resolve_def unexpecteds_not_missing split: sum.splits if_splits)
  from main_coerce_error [OF this assms] show "\<exists>pre p post. pc_param_specs command = pre @ p # post \<and>
      (\<forall>q\<in>set pre. resolves_cli provided q) \<and> absent_required (fst ` set provided) p"
    using coerce_not_argparse by blast
next
  assume "\<exists>pre p post. pc_param_specs command = pre @ p # post \<and>
      (\<forall>q\<in>set pre. resolves_cli provided q) \<and> absent_required (fst ` set provided) p"
  then obtain pre p post where d: "pc_param_specs command = pre @ p # post"
    "\<forall>q\<in>set pre. resolves_cli provided q" "absent_required (fst ` set provided) p" by blast
  have dist: "distinct (map ps_name (pre @ p # post))" using assms d(1) by simp
  have "main_resolve command provided = Inl (ArgparseExit (missing_required (ps_name p) (pc_name command)))"
    using main_coerce_missing [OF d(2) dist d(3), of "pc_name command" "[]"] d(1)
    by (simp add: main_resolve_def)
  then show "\<exists>n. main_resolve command provided = Inl (ArgparseExit (missing_required n (pc_name command)))" ..
qed

lemma main_resolve_unexpected_iff:
  assumes "distinct (map ps_name (pc_param_specs command))"
  shows "(\<exists>xs. main_resolve command provided = Inl (ArgparseExit (unexpected_parameters (pc_name command) xs))) \<longleftrightarrow>
   (\<forall>q\<in>set (pc_param_specs command). resolves_cli provided q) \<and>
   \<not> fst ` set provided \<subseteq> ps_name ` set (pc_param_specs command)"
proof
  assume "\<exists>xs. main_resolve command provided = Inl (ArgparseExit (unexpected_parameters (pc_name command) xs))"
  then obtain xs where xs: "main_resolve command provided = Inl (ArgparseExit (unexpected_parameters (pc_name command) xs))" ..
  have noerr: "\<not> (\<exists>e. main_coerce (pc_name command) (pc_param_specs command) provided [] = Inl e)"
  proof
    assume "\<exists>e. main_coerce (pc_name command) (pc_param_specs command) provided [] = Inl e"
    then obtain e where e: "main_coerce (pc_name command) (pc_param_specs command) provided [] = Inl e" ..
    then have "e = ArgparseExit (unexpected_parameters (pc_name command) xs)"
      using xs by (simp add: main_resolve_def)
    with main_coerce_error [OF e assms] show False
      using coerce_not_argparse missing_not_unexpecteds by (metis exn.inject(4))
  qed
  then have ok: "\<forall>q\<in>set (pc_param_specs command). resolves_cli provided q"
    using main_coerce_blocked [OF _ assms] by blast
  from main_coerce_ok [OF ok assms, of "pc_name command" "[]"] obtain out where
    out: "main_coerce (pc_name command) (pc_param_specs command) provided [] =
            Inr (filter (\<lambda>kv. fst kv \<notin> ps_name ` set (pc_param_specs command)) provided, out)" ..
  have "filter (\<lambda>kv. fst kv \<notin> ps_name ` set (pc_param_specs command)) provided \<noteq> []"
    using xs out by (auto simp: main_resolve_def split: if_splits)
  then have "\<not> fst ` set provided \<subseteq> ps_name ` set (pc_param_specs command)"
    by (auto simp: filter_empty_conv)
  with ok show "(\<forall>q\<in>set (pc_param_specs command). resolves_cli provided q) \<and>
     \<not> fst ` set provided \<subseteq> ps_name ` set (pc_param_specs command)" ..
next
  assume a: "(\<forall>q\<in>set (pc_param_specs command). resolves_cli provided q) \<and>
     \<not> fst ` set provided \<subseteq> ps_name ` set (pc_param_specs command)"
  then have ok: "\<forall>q\<in>set (pc_param_specs command). resolves_cli provided q" ..
  from main_coerce_ok [OF ok assms, of "pc_name command" "[]"] obtain out where
    out: "main_coerce (pc_name command) (pc_param_specs command) provided [] =
            Inr (filter (\<lambda>kv. fst kv \<notin> ps_name ` set (pc_param_specs command)) provided, out)" ..
  have "filter (\<lambda>kv. fst kv \<notin> ps_name ` set (pc_param_specs command)) provided \<noteq> []"
    using a by (auto simp: filter_empty_conv)
  then have "main_resolve command provided =
      Inl (ArgparseExit (unexpected_parameters (pc_name command)
             (map fst (filter (\<lambda>kv. fst kv \<notin> ps_name ` set (pc_param_specs command)) provided))))"
    using out by (simp add: main_resolve_def)
  then show "\<exists>xs. main_resolve command provided = Inl (ArgparseExit (unexpected_parameters (pc_name command) xs))" ..
qed

lemma parse_two: "py_float ''2.0'' = Some two"
  by code_simp

lemma format_two: "format_g 10 two = ''2''"
  by code_simp

lemma repr_two: "float_repr two = ''2.0''"
  by code_simp

text \<open>
  C3, as stated, fails: a default is not coerced.  A \<^verbatim>\<open>float\<close> parameter with the default
  \<^verbatim>\<open>2.0\<close> is sent as \<open>2.0\<close> when the caller leaves it out, and as \<open>2\<close> when the caller
  supplies the same value, both in \<^verbatim>\<open>execute\<close> and in \<^verbatim>\<open>main\<close>.
\<close>

theorem default_coerced_counterexample:
  "execute_resolve ''set_zoom'' zoom_with_default [] = Inr [(''Magnification'', ''2.0'')]
 \<and> execute_resolve ''set_zoom'' zoom_with_default [(''Magnification'', PyFloat two)] =
     Inr [(''Magnification'', ''2'')]
 \<and> main_resolve zoom_with_default [] = Inr [(''Magnification'', ''2.0'')]
 \<and> main_resolve zoom_with_default [(''Magnification'', ''2.0'')] = Inr [(''Magnification'', ''2'')]"
  by (simp add: execute_resolve_def main_resolve_def zoom_with_default_def is_required_def
        py_str_def repr_two coerce_param_value_def parse_two format_two dict_pop_def)

text \<open>
  C3, amended.  For every declared parameter that is absent from the supplied parameters and
  has a default, the resolved parameters hold \<^verbatim>\<open>str(default)\<close> under its name: the default
  is used as it prints, not passed through \<^verbatim>\<open>coerce_param_value\<close>.
\<close>

theorem default_used_verbatim:
  assumes "distinct (map ps_name (pc_param_specs command))"
    and "spec \<in> set (pc_param_specs command)"
    and "ps_default spec = Some d"
  shows "(map_of params (ps_name spec) = None \<and> execute_resolve cn command params = Inr coerced \<longrightarrow>
            map_of coerced (ps_name spec) = Some (py_str d))
       \<and> (map_of provided (ps_name spec) = None \<and> main_resolve command provided = Inr coerced' \<longrightarrow>
            map_of coerced' (ps_name spec) = Some (py_str d))"
proof (intro conjI impI)
  assume a: "map_of params (ps_name spec) = None \<and> execute_resolve cn command params = Inr coerced"
  then have "execute_coerce cn (pc_param_specs command) params [] = Inr coerced"
    by (auto simp: execute_resolve_def Let_def split: sum.splits if_splits)
  from execute_coerce_default [OF this assms(1,2) _ assms(3)] a
  show "map_of coerced (ps_name spec) = Some (py_str d)" by simp
next
  assume a: "map_of provided (ps_name spec) = None \<and> main_resolve command provided = Inr coerced'"
  then obtain rest where "main_coerce (pc_name command) (pc_param_specs command) provided [] = Inr (rest, coerced')"
    by (auto simp: main_resolve_def split: sum.splits if_splits)
  from main_coerce_default [OF this assms(1,2) _ assms(3)] a
  show "map_of coerced' (ps_name spec) = Some (py_str d)" by simp
qed

theorem default_used_verbatim_witness:
  "map_of [(''Magnification'', ''2.0'')] ''Magnification'' = Some (py_str (PyFloat two))
 \<and> py_str (PyFloat two) = ''2.0''
 \<and> execute_resolve ''set_zoom'' zoom_with_default [] = Inr [(''Magnification'', ''2.0'')]
 \<and> main_resolve zoom_with_default [] = Inr [(''Magnification'', ''2.0'')]"
proof -
  let ?spec = "\<lparr>ps_name = ''Magnification'', ps_type = Some TyFloat, ps_required = Some False,
          ps_default = Some (PyFloat two), ps_help = None\<rparr>"
  have d: "distinct (map ps_name (pc_param_specs zoom_with_default))"
    by (simp add: zoom_with_default_def)
  have m: "?spec \<in> set (pc_param_specs zoom_with_default)"
    by (simp add: zoom_with_default_def)
  have df: "ps_default ?spec = Some (PyFloat two)" by simp
  have e: "execute_resolve ''set_zoom'' zoom_with_default [] = Inr [(''Magnification'', ''2.0'')]"
    by (simp add: execute_resolve_def zoom_with_default_def is_required_def py_str_def repr_two)
  have c: "main_resolve zoom_with_default [] = Inr [(''Magnification'', ''2.0'')]"
    by (simp add: main_resolve_def zoom_with_default_def is_required_def py_str_def repr_two)
  have s: "py_str (PyFloat two) = ''2.0''"
    by (simp add: py_str_def repr_two)
  show ?thesis
    using default_used_verbatim [OF d m df, of "[]" "''set_zoom''" "[(''Magnification'', ''2.0'')]" "[]"
        "[(''Magnification'', ''2.0'')]"] e c s
    by simp
qed

text \<open>
  C4, amended.  The declared parameters are visited in declaration order, and the first one
  that does not resolve decides the error: if it is absent, required and without default,
  the call fails with the missing-parameter error naming it; if it is supplied and its value
  is rejected, the call fails with that coercion error instead, whatever is missing after
  it.  So the call fails with a missing-parameter error iff the first parameter that does
  not resolve is absent, required and without default, and it fails with the
  unexpected-parameter error iff every declared parameter resolves and some supplied key is
  not declared.  This holds for \<^verbatim>\<open>execute\<close> and for \<^verbatim>\<open>main\<close>.
\<close>

theorem resolve_error_order:
  assumes "distinct (map ps_name (pc_param_specs command))"
  shows "(\<forall>pre p post.
            pc_param_specs command = pre @ p # post \<and> (\<forall>q\<in>set pre. resolves_api params q) \<and>
            absent_required (fst ` set params) p \<longrightarrow>
            execute_resolve cn command params = Inl (ValueError (missing_required (ps_name p) cn)))
       \<and> ((\<exists>n. execute_resolve cn command params = Inl (ValueError (missing_required n cn))) \<longleftrightarrow>
          (\<exists>pre p post. pc_param_specs command = pre @ p # post \<and>
             (\<forall>q\<in>set pre. resolves_api params q) \<and> absent_required (fst ` set params) p))
       \<and> ((\<exists>xs. execute_resolve cn command params = Inl (ValueError (unexpected_parameter cn xs))) \<longleftrightarrow>
          (\<forall>q\<in>set (pc_param_specs command). resolves_api params q) \<and>
          \<not> fst ` set params \<subseteq> ps_name ` set (pc_param_specs command))
       \<and> (\<forall>pre p post.
            pc_param_specs command = pre @ p # post \<and> (\<forall>q\<in>set pre. resolves_cli provided q) \<and>
            absent_required (fst ` set provided) p \<longrightarrow>
            main_resolve command provided =
              Inl (ArgparseExit (missing_required (ps_name p) (pc_name command))))
       \<and> ((\<exists>n. main_resolve command provided =
                 Inl (ArgparseExit (missing_required n (pc_name command)))) \<longleftrightarrow>
          (\<exists>pre p post. pc_param_specs command = pre @ p # post \<and>
             (\<forall>q\<in>set pre. resolves_cli provided q) \<and> absent_required (fst ` set provided) p))
       \<and> ((\<exists>xs. main_resolve command provided =
                 Inl (ArgparseExit (unexpected_parameters (pc_name command) xs))) \<longleftrightarrow>
          (\<forall>q\<in>set (pc_param_specs command). resolves_cli provided q) \<and>
          \<not> fst ` set provided \<subseteq> ps_name ` set (pc_param_specs command))"
proof -
  have api: "\<forall>pre p post.
            pc_param_specs command = pre @ p # post \<and> (\<forall>q\<in>set pre. resolves_api params q) \<and>
            absent_required (fst ` set params) p \<longrightarrow>
            execute_resolve cn command params = Inl (ValueError (missing_required (ps_name p) cn))"
  proof (intro allI impI)
    fix pre p post
    assume a: "pc_param_specs command = pre @ p # post \<and> (\<forall>q\<in>set pre. resolves_api params q) \<and>
            absent_required (fst ` set params) p"
    then have "execute_coerce cn (pre @ p # post) params [] = Inl (ValueError (missing_required (ps_name p) cn))"
      using execute_coerce_missing by blast
    then show "execute_resolve cn command params = Inl (ValueError (missing_required (ps_name p) cn))"
      using a by (simp add: execute_resolve_def)
  qed
  have cli: "\<forall>pre p post.
            pc_param_specs command = pre @ p # post \<and> (\<forall>q\<in>set pre. resolves_cli provided q) \<and>
            absent_required (fst ` set provided) p \<longrightarrow>
            main_resolve command provided =
              Inl (ArgparseExit (missing_required (ps_name p) (pc_name command)))"
  proof (intro allI impI)
    fix pre p post
    assume a: "pc_param_specs command = pre @ p # post \<and> (\<forall>q\<in>set pre. resolves_cli provided q) \<and>
            absent_required (fst ` set provided) p"
    then have dist: "distinct (map ps_name (pre @ p # post))" using assms by simp
    have "main_coerce (pc_name command) (pre @ p # post) provided [] =
            Inl (ArgparseExit (missing_required (ps_name p) (pc_name command)))"
      using main_coerce_missing [OF _ dist] a by blast
    then show "main_resolve command provided =
              Inl (ArgparseExit (missing_required (ps_name p) (pc_name command)))"
      using a by (simp add: main_resolve_def)
  qed
  show ?thesis
    using api cli execute_resolve_missing_iff [of cn command params]
      execute_resolve_unexpected_iff [of cn command params]
      main_resolve_missing_iff [OF assms, of provided]
      main_resolve_unexpected_iff [OF assms, of provided]
    by (intro conjI) assumption+
qed

lemma int_three: "py_int ''3'' = Some 3"
  by code_simp

lemma int_fast: "py_int ''fast'' = None"
  by code_simp

lemma str_three: "int_str 3 = ''3''"
  by code_simp

text \<open>
  C4, as stated, fails: with \<^verbatim>\<open>set_speed\<close> and the only supplied parameter
  \<^verbatim>\<open>Azimuth_Speed=fast\<close>, the required parameter \<^verbatim>\<open>Elevation_Speed\<close> is absent, and yet
  the call does not fail with a missing-parameter error: the rejected value of
  \<^verbatim>\<open>Azimuth_Speed\<close> is reported first.
\<close>

theorem missing_iff_counterexample:
  "load_command ''set_speed'' = Inr set_speed_command
 \<and> absent_required (fst ` set [(''Azimuth_Speed'', PyStr ''fast'')])
      (param ''Elevation_Speed'' TyInt ''Desired elevation speed setting.'')
 \<and> execute_resolve ''set_speed'' set_speed_command [(''Azimuth_Speed'', PyStr ''fast'')] =
      Inl (ValueError (''Unable to convert '' @ quoted ''Azimuth_Speed'' @ ''='' @ quoted ''fast'' @ '' to int''))
 \<and> main_resolve set_speed_command [(''Azimuth_Speed'', ''fast'')] =
      Inl (ValueError (''Unable to convert '' @ quoted ''Azimuth_Speed'' @ ''='' @ quoted ''fast'' @ '' to int''))"
  by (simp add: load_command_def CAMERA_COMMANDS_def set_speed_command_def absent_required_def
        param_def is_required_def execute_resolve_def main_resolve_def py_str_def
        coerce_param_value_def int_fast unable_to_convert_def type_name_def)

theorem resolve_error_order_witness:
  "execute_resolve ''set_speed'' set_speed_command [(''Azimuth_Speed'', PyInt 3)] =
     Inl (ValueError (missing_required ''Elevation_Speed'' ''set_speed''))
 \<and> main_resolve set_speed_command [(''Azimuth_Speed'', ''3'')] =
     Inl (ArgparseExit (missing_required ''Elevation_Speed'' ''set_speed''))
 \<and> execute_resolve ''set_speed'' set_speed_command
      [(''Azimuth_Speed'', PyInt 3), (''Elevation_Speed'', PyInt 3), (''Bogus'', PyInt 3)] =
     Inl (ValueError (unexpected_parameter ''set_speed'' [''Bogus'']))
 \<and> execute_resolve ''set_speed'' set_speed_command
      [(''Azimuth_Speed'', PyInt 3), (''Bogus'', PyInt 3)] =
     Inl (ValueError (missing_required ''Elevation_Speed'' ''set_speed''))"
proof -
  let ?az = "param ''Azimuth_Speed'' TyInt ''Desired azimuth speed setting.''"
  let ?el = "param ''Elevation_Speed'' TyInt ''Desired elevation speed setting.''"
  let ?params = "[(''Azimuth_Speed'', PyInt 3)]"
  let ?provided = "[(''Azimuth_Speed'', ''3'')]"
  have dist: "distinct (map ps_name (pc_param_specs set_speed_command))"
    by (simp add: set_speed_command_def param_def)
  have specs: "pc_param_specs set_speed_command = [?az] @ ?el # []"
    by (simp add: set_speed_command_def)
  have az: "\<forall>q\<in>set [?az]. resolves_api ?params q"
    by (simp add: resolves_api_def absent_required_def coercion_fails_api_def param_def py_str_def
          coerce_param_value_def str_three int_three)
  have az': "\<forall>q\<in>set [?az]. resolves_cli ?provided q"
    by (simp add: resolves_cli_def absent_required_def coercion_fails_cli_def param_def
          coerce_param_value_def int_three)
  have el: "absent_required (fst ` set ?params) ?el"
    by (simp add: absent_required_def param_def is_required_def)
  have el': "absent_required (fst ` set ?provided) ?el"
    by (simp add: absent_required_def param_def is_required_def)
  have name: "ps_name ?el = ''Elevation_Speed''" "pc_name set_speed_command = ''set_speed''"
    by (simp_all add: param_def set_speed_command_def)
  have a: "execute_resolve ''set_speed'' set_speed_command ?params =
             Inl (ValueError (missing_required ''Elevation_Speed'' ''set_speed''))"
    using resolve_error_order [OF dist, of ?params "''set_speed''" ?provided, THEN conjunct1,
        rule_format, of "[?az]" ?el "[]"] specs az el name
    by simp
  have b: "main_resolve set_speed_command ?provided =
             Inl (ArgparseExit (missing_required ''Elevation_Speed'' ''set_speed''))"
    using resolve_error_order [OF dist, of ?params "''set_speed''" ?provided, THEN conjunct2,
        THEN conjunct2, THEN conjunct2, THEN conjunct1, rule_format, of "[?az]" ?el "[]"]
      specs az' el' name
    by simp
  have c: "execute_resolve ''set_speed'' set_speed_command
      [(''Azimuth_Speed'', PyInt 3), (''Elevation_Speed'', PyInt 3), (''Bogus'', PyInt 3)] =
     Inl (ValueError (unexpected_parameter ''set_speed'' [''Bogus'']))"
    by (simp add: execute_resolve_def set_speed_command_def param_def is_required_def py_str_def
          coerce_param_value_def str_three int_three)
  have d: "execute_resolve ''set_speed'' set_speed_command
      [(''Azimuth_Speed'', PyInt 3), (''Bogus'', PyInt 3)] =
     Inl (ValueError (missing_required ''Elevation_Speed'' ''set_speed''))"
    by (simp add: execute_resolve_def set_speed_command_def param_def is_required_def py_str_def
          coerce_param_value_def str_three int_three)
  show ?thesis using a b c d by simp
qed

section \<open>Sessions\<close>

lemma float_val_scaled:
  assumes "e0 \<le> e"
  shows "float_val (Finite neg m e) = of_int (signed_at neg m e e0) * 2 powr of_int e0"
proof -
  have "of_int e = (of_int (e - e0) :: real) + of_int e0" by simp
  then have "(2 :: real) powr of_int e = 2 powr of_int (e - e0) * 2 powr of_int e0"
    by (metis powr_add)
  moreover have "(2 :: real) powr of_int (e - e0) = 2 ^ nat (e - e0)"
    using assms powr_realpow [of "2 :: real" "nat (e - e0)"] by simp
  ultimately show ?thesis
    by (simp add: float_val_def signed_at_def)
qed

lemma float_gt_finite:
  assumes "is_finite x" and "is_finite y"
  shows "float_gt x y \<longleftrightarrow> float_val y < float_val x"
proof -
  obtain a m e where x: "x = Finite a m e"
    using assms(1) by (cases x) (simp_all add: is_finite_def)
  obtain b n f where y: "y = Finite b n f"
    using assms(2) by (cases y) (simp_all add: is_finite_def)
  let ?e0 = "min e f"
  have pos: "(0 :: real) < 2 powr of_int ?e0" by simp
  have vx: "float_val x = of_int (signed_at a m e ?e0) * 2 powr of_int ?e0"
    unfolding x by (rule float_val_scaled) simp
  have vy: "float_val y = of_int (signed_at b n f ?e0) * 2 powr of_int ?e0"
    unfolding y by (rule float_val_scaled) simp
  have "float_val y < float_val x \<longleftrightarrow> signed_at b n f ?e0 < signed_at a m e ?e0"
    unfolding vx vy using pos by (simp add: mult_less_cancel_right)
  then show ?thesis by (simp add: x y)
qed

lemma session_fresh_unforced:
  "session_fresh env False (a, w) =
     (if truthy_json (session_id a)
      then (\<not> float_gt (float_sub (clock env (length w)) (last_auth a)) (session_timeout a),
            a, w @ [EvClock])
      else (False, a, w))"
  by (simp add: session_fresh_def session_expired_def)

lemma cc_session_fresh_unforced:
  "cc_session_fresh env False (c, w) =
     (if has_session c
      then (\<not> float_gt (float_sub (clock env (length w)) (last_auth_time c)) (SESSION_TIMEOUT c),
            c, w @ [EvClock])
      else (False, c, w))"
  by (simp add: cc_session_fresh_def is_session_expired_def)

lemma authenticate_exchange:
  assumes "session_fresh env force (a, w) = (False, a, w0)" and "base_url a = Inr b"
  shows "\<exists>r a' w'. authenticate env force (a, w) = (r, a', w0 @ EvUrlopen (b @ ''?action=SERVERWhoAmI'') # w')"
  using assms
  by (auto simp: authenticate_def Let_def split: http_outcome.splits option.splits sum.splits)

lemma cc_authenticate_exchange:
  assumes "cc_session_fresh env force (c, w) = (False, c, w0)"
  shows "\<exists>r c' w'. cc_authenticate env force (c, w) =
           (r, c', w0 @ EvSubprocess [AUTHENTICATE_SCRIPT c, camera_ip c] # w')"
  using assms
  by (auto simp: cc_authenticate_def Let_def split: proc_outcome.splits)

lemma authenticate_when_fresh:
  "fst (session_fresh env False (a, w)) \<Longrightarrow>
   authenticate env False (a, w) = (Inr True, a, w @ [EvClock])"
  by (auto simp: authenticate_def session_fresh_unforced split: if_splits)

lemma cc_authenticate_when_fresh:
  "fst (cc_session_fresh env False (c, w)) \<Longrightarrow>
   cc_authenticate env False (c, w) = (True, c, w @ [EvClock])"
  by (auto simp: cc_authenticate_def cc_session_fresh_unforced split: if_splits)

lemma authenticate_when_stale:
  assumes "\<not> fst (session_fresh env False (a, w))" and "base_url a = Inr b"
  shows "\<exists>r a' w'. authenticate env False (a, w) = (r, a', w') \<and>
           EvUrlopen (b @ ''?action=SERVERWhoAmI'') \<in> set (drop (length w) w')"
proof -
  have "\<exists>w0. session_fresh env False (a, w) = (False, a, w0) \<and> (w0 = w \<or> w0 = w @ [EvClock])"
    using assms(1) by (cases "truthy_json (session_id a)") (simp_all add: session_fresh_unforced)
  then obtain w0 where f: "session_fresh env False (a, w) = (False, a, w0)"
    and w0: "w0 = w \<or> w0 = w @ [EvClock]"
    by blast
  from authenticate_exchange [OF f assms(2)] obtain r a' w' where
    r: "authenticate env False (a, w) = (r, a', w0 @ EvUrlopen (b @ ''?action=SERVERWhoAmI'') # w')"
    by blast
  have "EvUrlopen (b @ ''?action=SERVERWhoAmI'') \<in>
          set (drop (length w) (w0 @ EvUrlopen (b @ ''?action=SERVERWhoAmI'') # w'))"
    using w0 by auto
  with r show ?thesis by blast
qed

lemma cc_authenticate_when_stale:
  assumes "\<not> fst (cc_session_fresh env False (c, w))"
  shows "\<exists>r c' w'. cc_authenticate env False (c, w) = (r, c', w') \<and>
           EvSubprocess [AUTHENTICATE_SCRIPT c, camera_ip c] \<in> set (drop (length w) w')"
proof -
  have "\<exists>w0. cc_session_fresh env False (c, w) = (False, c, w0) \<and> (w0 = w \<or> w0 = w @ [EvClock])"
    using assms by (cases "has_session c") (simp_all add: cc_session_fresh_unforced)
  then obtain w0 where f: "cc_session_fresh env False (c, w) = (False, c, w0)"
    and w0: "w0 = w \<or> w0 = w @ [EvClock]"
    by blast
  from cc_authenticate_exchange [OF f] obtain r c' w' where
    r: "cc_authenticate env False (c, w) =
          (r, c', w0 @ EvSubprocess [AUTHENTICATE_SCRIPT c, camera_ip c] # w')"
    by blast
  have "EvSubprocess [AUTHENTICATE_SCRIPT c, camera_ip c] \<in>
          set (drop (length w) (w0 @ EvSubprocess [AUTHENTICATE_SCRIPT c, camera_ip c] # w'))"
    using w0 by auto
  with r show ?thesis by blast
qed

lemma fresh_exact:
  assumes "exact_sub now issued" and "is_finite timeout"
  shows "(present \<and> \<not> float_gt (float_sub now issued) timeout) =
         spec_session_valid present (float_val issued) (float_val timeout) (float_val now)"
proof -
  have fin: "is_finite (float_sub now issued)"
    and val: "float_val (float_sub now issued) = float_val now - float_val issued"
    using assms(1) by (simp_all add: exact_sub_def)
  show ?thesis
    unfolding float_gt_finite [OF fin assms(2)] val spec_session_valid_def by auto
qed

lemma whole_values:
  "whole 1 = Finite False 1 0"
  "whole 5 = Finite False 5 0"
  "whole 120 = Finite False 15 3"
  "whole 1000 = Finite False 125 3"
  "whole 1060 = Finite False 265 2"
  "whole 1119 = Finite False 1119 0"
  "whole 1121 = Finite False 1121 0"
  "whole 10000000000000000 = Finite False 152587890625 16"
  "whole 10000000000000002 = Finite False 5000000000000001 1"
  by code_simp+

lemma late_difference:
  "float_sub (Finite False 5000000000000001 1) (Finite False 1 0) = Finite False 152587890625 16"
  by code_simp

lemma small_differences:
  "float_sub (Finite False 1119 0) (Finite False 125 3) = Finite False 119 0"
  "float_sub (Finite False 1121 0) (Finite False 125 3) = Finite False 121 0"
  "float_sub (Finite False 265 2) (Finite False 125 3) = Finite False 15 2"
  by code_simp+

lemma float_vals:
  "float_val (Finite False 1 0) = 1"
  "float_val (Finite False 15 3) = 120"
  "float_val (Finite False 125 3) = 1000"
  "float_val (Finite False 1119 0) = 1119"
  "float_val (Finite False 1121 0) = 1121"
  "float_val (Finite False 119 0) = 119"
  "float_val (Finite False 121 0) = 121"
  "float_val (Finite False 152587890625 16) = 10000000000000000"
  "float_val (Finite False 5000000000000001 1) = 10000000000000002"
  by (simp_all add: float_val_def)

lemma gt_values:
  "\<not> float_gt (Finite False 152587890625 16) (Finite False 152587890625 16)"
  "\<not> float_gt (Finite False 119 0) (Finite False 15 3)"
  "float_gt (Finite False 121 0) (Finite False 15 3)"
  "\<not> float_gt (Finite False 15 2) (Finite False 15 3)"
  by (simp_all add: signed_at_def)

text \<open>
  C6, as stated, fails: the difference of the two times is a float and is rounded.  A
  session issued at time 1.0 with a time-out of 1e16 seconds is still taken as valid at time
  10000000000000002.0, which is the issue time plus the time-out plus one: the difference
  rounds to 1e16, which is not greater than the time-out, so \<^verbatim>\<open>authenticate()\<close> returns
  success without an exchange, in both backends.
\<close>

theorem stale_session_counterexample:
  "float_val (whole 10000000000000002) =
     float_val (last_auth api_late) + float_val (session_timeout api_late) + 1
 \<and> authenticate (quiet_env (whole 10000000000000002)) False (api_late, []) =
     (Inr True, api_late, [EvClock])
 \<and> cc_authenticate (quiet_env (whole 10000000000000002)) False (cam_late, []) =
     (True, cam_late, [EvClock])"
proof -
  have v: "float_val (whole 10000000000000002) =
     float_val (last_auth api_late) + float_val (session_timeout api_late) + 1"
    by (simp add: api_late_def whole_values float_vals)
  have "fst (session_fresh (quiet_env (whole 10000000000000002)) False (api_late, []))"
    by (simp add: session_fresh_unforced api_late_def quiet_env_def truthy_json_def
          whole_values late_difference gt_values)
  then have a: "authenticate (quiet_env (whole 10000000000000002)) False (api_late, []) =
     (Inr True, api_late, [] @ [EvClock])"
    by (rule authenticate_when_fresh)
  have "fst (cc_session_fresh (quiet_env (whole 10000000000000002)) False (cam_late, []))"
    by (simp add: cc_session_fresh_unforced cam_late_def quiet_env_def has_session_def
          whole_values late_difference gt_values)
  then have c: "cc_authenticate (quiet_env (whole 10000000000000002)) False (cam_late, []) =
     (True, cam_late, [] @ [EvClock])"
    by (rule cc_authenticate_when_fresh)
  show ?thesis using v a c by simp
qed

text \<open>
  C6, amended.  In both backends the unforced session check holds exactly when a token is
  present and the float difference between the clock reading taken by that call and the
  issue time is not greater than the time-out.  When it holds, \<^verbatim>\<open>authenticate()\<close> is a
  no-op: it returns success, leaves the object as it is and starts no exchange.  When it
  does not hold, \<^verbatim>\<open>authenticate()\<close> performs the authentication exchange.  Whenever the
  difference is finite and needs no rounding and the time-out is finite, the check is the
  specification's: a token is present and the time since the issue is at most the time-out;
  a session with a token that was issued at time \<open>t0\<close> is then valid at \<open>t0 + T - 1\<close> and
  stale at \<open>t0 + T + 1\<close>.
\<close>

theorem session_freshness:
  assumes "base_url a = Inr b"
  shows "fst (session_fresh env False (a, w)) =
           (truthy_json (session_id a) \<and> \<not> float_gt (float_sub (clock env (length w)) (last_auth a)) (session_timeout a))
       \<and> (fst (session_fresh env False (a, w)) \<longrightarrow> authenticate env False (a, w) = (Inr True, a, w @ [EvClock]))
       \<and> (\<not> fst (session_fresh env False (a, w)) \<longrightarrow>
          (\<exists>r a' w'. authenticate env False (a, w) = (r, a', w') \<and>
             EvUrlopen (b @ ''?action=SERVERWhoAmI'') \<in> set (drop (length w) w')))
       \<and> (exact_sub (clock env (length w)) (last_auth a) \<and> is_finite (session_timeout a) \<longrightarrow>
          fst (session_fresh env False (a, w)) =
            spec_session_valid (truthy_json (session_id a)) (float_val (last_auth a)) (float_val (session_timeout a))
              (float_val (clock env (length w))))
       \<and> (exact_sub (clock env (length w)) (last_auth a) \<and> is_finite (session_timeout a) \<and> truthy_json (session_id a) \<and>
          float_val (clock env (length w)) = float_val (last_auth a) + float_val (session_timeout a) - 1 \<longrightarrow>
          fst (session_fresh env False (a, w)))
       \<and> (exact_sub (clock env (length w)) (last_auth a) \<and> is_finite (session_timeout a) \<and>
          float_val (clock env (length w)) = float_val (last_auth a) + float_val (session_timeout a) + 1 \<longrightarrow>
          \<not> fst (session_fresh env False (a, w)))
       \<and> fst (cc_session_fresh env False (c, w)) =
           (has_session c \<and> \<not> float_gt (float_sub (clock env (length w)) (last_auth_time c)) (SESSION_TIMEOUT c))
       \<and> (fst (cc_session_fresh env False (c, w)) \<longrightarrow> cc_authenticate env False (c, w) = (True, c, w @ [EvClock]))
       \<and> (\<not> fst (cc_session_fresh env False (c, w)) \<longrightarrow>
          (\<exists>r c' w'. cc_authenticate env False (c, w) = (r, c', w') \<and>
             EvSubprocess [AUTHENTICATE_SCRIPT c, camera_ip c] \<in> set (drop (length w) w')))
       \<and> (exact_sub (clock env (length w)) (last_auth_time c) \<and> is_finite (SESSION_TIMEOUT c) \<longrightarrow>
          fst (cc_session_fresh env False (c, w)) =
            spec_session_valid (has_session c) (float_val (last_auth_time c)) (float_val (SESSION_TIMEOUT c))
              (float_val (clock env (length w))))
       \<and> (exact_sub (clock env (length w)) (last_auth_time c) \<and> is_finite (SESSION_TIMEOUT c) \<and> has_session c \<and>
          float_val (clock env (length w)) = float_val (last_auth_time c) + float_val (SESSION_TIMEOUT c) - 1 \<longrightarrow>
          fst (cc_session_fresh env False (c, w)))
       \<and> (exact_sub (clock env (length w)) (last_auth_time c) \<and> is_finite (SESSION_TIMEOUT c) \<and>
          float_val (clock env (length w)) = float_val (last_auth_time c) + float_val (SESSION_TIMEOUT c) + 1 \<longrightarrow>
          \<not> fst (cc_session_fresh env False (c, w)))"
proof -
  let ?now = "clock env (length w)"
  have a1: "fst (session_fresh env False (a, w)) =
           (truthy_json (session_id a) \<and> \<not> float_gt (float_sub ?now (last_auth a)) (session_timeout a))"
    by (simp add: session_fresh_unforced)
  have c1: "fst (cc_session_fresh env False (c, w)) =
           (has_session c \<and> \<not> float_gt (float_sub ?now (last_auth_time c)) (SESSION_TIMEOUT c))"
    by (simp add: cc_session_fresh_unforced)
  have a2: "fst (session_fresh env False (a, w)) \<longrightarrow>
              authenticate env False (a, w) = (Inr True, a, w @ [EvClock])"
    using authenticate_when_fresh by blast
  have c2: "fst (cc_session_fresh env False (c, w)) \<longrightarrow>
              cc_authenticate env False (c, w) = (True, c, w @ [EvClock])"
    using cc_authenticate_when_fresh by blast
  have a3: "\<not> fst (session_fresh env False (a, w)) \<longrightarrow>
          (\<exists>r a' w'. authenticate env False (a, w) = (r, a', w') \<and>
             EvUrlopen (b @ ''?action=SERVERWhoAmI'') \<in> set (drop (length w) w'))"
    using authenticate_when_stale [OF _ assms] by blast
  have c3: "\<not> fst (cc_session_fresh env False (c, w)) \<longrightarrow>
          (\<exists>r c' w'. cc_authenticate env False (c, w) = (r, c', w') \<and>
             EvSubprocess [AUTHENTICATE_SCRIPT c, camera_ip c] \<in> set (drop (length w) w'))"
    using cc_authenticate_when_stale by blast
  have a4: "exact_sub ?now (last_auth a) \<and> is_finite (session_timeout a) \<longrightarrow>
          fst (session_fresh env False (a, w)) =
            spec_session_valid (truthy_json (session_id a)) (float_val (last_auth a))
              (float_val (session_timeout a)) (float_val ?now)"
    unfolding a1 using fresh_exact by blast
  have c4: "exact_sub ?now (last_auth_time c) \<and> is_finite (SESSION_TIMEOUT c) \<longrightarrow>
          fst (cc_session_fresh env False (c, w)) =
            spec_session_valid (has_session c) (float_val (last_auth_time c))
              (float_val (SESSION_TIMEOUT c)) (float_val ?now)"
    unfolding c1 using fresh_exact by blast
  have a5: "exact_sub ?now (last_auth a) \<and> is_finite (session_timeout a) \<and>
          truthy_json (session_id a) \<and>
          float_val ?now = float_val (last_auth a) + float_val (session_timeout a) - 1 \<longrightarrow>
          fst (session_fresh env False (a, w))"
    using a4 by (simp add: spec_session_valid_def)
  have c5: "exact_sub ?now (last_auth_time c) \<and> is_finite (SESSION_TIMEOUT c) \<and> has_session c \<and>
          float_val ?now = float_val (last_auth_time c) + float_val (SESSION_TIMEOUT c) - 1 \<longrightarrow>
          fst (cc_session_fresh env False (c, w))"
    using c4 by (simp add: spec_session_valid_def)
  have a6: "exact_sub ?now (last_auth a) \<and> is_finite (session_timeout a) \<and>
          float_val ?now = float_val (last_auth a) + float_val (session_timeout a) + 1 \<longrightarrow>
          \<not> fst (session_fresh env False (a, w))"
    using a4 by (simp add: spec_session_valid_def)
  have c6: "exact_sub ?now (last_auth_time c) \<and> is_finite (SESSION_TIMEOUT c) \<and>
          float_val ?now = float_val (last_auth_time c) + float_val (SESSION_TIMEOUT c) + 1 \<longrightarrow>
          \<not> fst (cc_session_fresh env False (c, w))"
    using c4 by (simp add: spec_session_valid_def)
  show ?thesis
    using a1 a2 a3 a4 a5 a6 c1 c2 c3 c4 c5 c6 by (intro conjI) assumption+
qed

lemma str_eighty: "int_str 80 = ''80''"
  by code_simp

lemma base_url_api0: "base_url api0 = Inr ''http://169.254.50.183:80/Nexus.cgi''"
  by (simp add: base_url_def host_def api0_def DEFAULT_CAMERA_def CAMERA_HOSTS_def FLIR2_IP_def
        NEXUS_DEFAULT_PORT_def NEXUS_CGI_PATH_def str_eighty)

theorem session_freshness_witness:
  "authenticate (quiet_env (whole 1119)) False (api0, []) = (Inr True, api0, [EvClock])
 \<and> (\<exists>r a' w'. authenticate (quiet_env (whole 1121)) False (api0, []) = (r, a', w') \<and>
      EvUrlopen (''http://169.254.50.183:80/Nexus.cgi'' @ ''?action=SERVERWhoAmI'') \<in> set (drop 0 w'))
 \<and> cc_authenticate (quiet_env (whole 1119)) False (cam0, []) = (True, cam0, [EvClock])
 \<and> (\<exists>r c' w'. cc_authenticate (quiet_env (whole 1121)) False (cam0, []) = (r, c', w') \<and>
      EvSubprocess [''authenticate.sh'', ''169.254.50.183''] \<in> set (drop 0 w'))"
proof -
  have t: "truthy_json (session_id api0)" "last_auth api0 = Finite False 125 3"
    "session_timeout api0 = Finite False 15 3"
    by (simp_all add: api0_def truthy_json_def whole_values)
  have h: "has_session cam0" "last_auth_time cam0 = Finite False 125 3"
    "SESSION_TIMEOUT cam0 = Finite False 15 3"
    "AUTHENTICATE_SCRIPT cam0 = ''authenticate.sh''" "camera_ip cam0 = ''169.254.50.183''"
    by (simp_all add: cam0_def has_session_def FLIR2_IP_def whole_values)
  have k: "\<And>now n. clock (quiet_env now) n = now"
    by (simp add: quiet_env_def)
  have x: "exact_sub (Finite False 1119 0) (Finite False 125 3)"
    "exact_sub (Finite False 1121 0) (Finite False 125 3)"
    "is_finite (Finite False 15 3)"
    by (simp_all add: exact_sub_def is_finite_def small_differences float_vals)
  note early = session_freshness [OF base_url_api0, of "quiet_env (whole 1119)" "[]" cam0]
  note late = session_freshness [OF base_url_api0, of "quiet_env (whole 1121)" "[]" cam0]
  have "fst (session_fresh (quiet_env (whole 1119)) False (api0, []))"
    by (rule early [THEN conjunct2, THEN conjunct2, THEN conjunct2, THEN conjunct2, THEN conjunct1, THEN mp])
      (simp add: t k x whole_values float_vals)
  then have a: "authenticate (quiet_env (whole 1119)) False (api0, []) = (Inr True, api0, [] @ [EvClock])"
    by (rule early [THEN conjunct2, THEN conjunct1, THEN mp])
  have "\<not> fst (session_fresh (quiet_env (whole 1121)) False (api0, []))"
    by (rule late [THEN conjunct2, THEN conjunct2, THEN conjunct2, THEN conjunct2, THEN conjunct2, THEN conjunct1, THEN mp])
      (simp add: t k x whole_values float_vals)
  then have b: "\<exists>r a' w'. authenticate (quiet_env (whole 1121)) False (api0, []) = (r, a', w') \<and>
      EvUrlopen (''http://169.254.50.183:80/Nexus.cgi'' @ ''?action=SERVERWhoAmI'') \<in>
        set (drop (length ([] :: world)) w')"
    by (rule late [THEN conjunct2, THEN conjunct2, THEN conjunct1, THEN mp])
  have "fst (cc_session_fresh (quiet_env (whole 1119)) False (cam0, []))"
    by (rule early [THEN conjunct2, THEN conjunct2, THEN conjunct2, THEN conjunct2, THEN conjunct2, THEN conjunct2, THEN conjunct2, THEN conjunct2, THEN conjunct2, THEN conjunct2, THEN conjunct1, THEN mp])
      (simp add: h k x whole_values float_vals)
  then have c: "cc_authenticate (quiet_env (whole 1119)) False (cam0, []) = (True, cam0, [] @ [EvClock])"
    by (rule early [THEN conjunct2, THEN conjunct2, THEN conjunct2, THEN conjunct2, THEN conjunct2, THEN conjunct2, THEN conjunct2, THEN conjunct1, THEN mp])
  have "\<not> fst (cc_session_fresh (quiet_env (whole 1121)) False (cam0, []))"
    by (rule late [THEN conjunct2, THEN conjunct2, THEN conjunct2, THEN conjunct2, THEN conjunct2, THEN conjunct2, THEN conjunct2, THEN conjunct2, THEN conjunct2, THEN conjunct2, THEN conjunct2, THEN mp])
      (simp add: h k x whole_values float_vals)
  then have d: "\<exists>r c' w'. cc_authenticate (quiet_env (whole 1121)) False (cam0, []) = (r, c', w') \<and>
      EvSubprocess [AUTHENTICATE_SCRIPT cam0, camera_ip cam0] \<in> set (drop (length ([] :: world)) w')"
    by (rule late [THEN conjunct2, THEN conjunct2, THEN conjunct2, THEN conjunct2, THEN conjunct2, THEN conjunct2, THEN conjunct2, THEN conjunct2, THEN conjunct1, THEN mp])
  show ?thesis using a b c d by (simp add: h)
qed
section \<open>Dispatch and retry\<close>

lemma cc_authenticate_fresh:
  assumes "has_session c"
    and "\<not> float_gt (float_sub (clock env (length w)) (last_auth_time c)) (SESSION_TIMEOUT c)"
  shows "cc_authenticate env False (c, w) = (True, c, w @ [EvClock])"
  using assms by (simp add: cc_authenticate_def cc_session_fresh_unforced)

lemma cc_authenticate_forced_ok:
  assumes "subprocess env (length w) = Exited 0 out err" and "strip out \<noteq> []"
  shows "cc_authenticate env True (c, w) =
           (True, c\<lparr>cc_session_id := Some (strip out), last_auth_time := clock env (length w + 1)\<rparr>,
            w @ [EvSubprocess [AUTHENTICATE_SCRIPT c, camera_ip c], EvClock])"
  using assms by (simp add: cc_authenticate_def cc_session_fresh_def has_session_def Let_def)

lemma cc_authenticate_forced_failed:
  assumes "subprocess env (length w) = ProcRaises x \<or>
           (\<exists>rc out err. subprocess env (length w) = Exited rc out err \<and> (rc \<noteq> 0 \<or> strip out = []))"
  shows "\<exists>c'. cc_authenticate env True (c, w) =
           (False, c', w @ [EvSubprocess [AUTHENTICATE_SCRIPT c, camera_ip c]]) \<and> \<not> has_session c'"
  using assms by (auto simp: cc_authenticate_def cc_session_fresh_def has_session_def Let_def)

text \<open>
  C1, amended.  In the script backend, for every call of \<^verbatim>\<open>get_degree_pos\<close> with a valid
  existing session: if the first run of the position script exits with a non-zero status,
  the authentication script is run once (the forced reauthentication), and when it succeeds
  the position script is run exactly once more with the new token, whatever that second run
  gives; when the second run succeeds and prints the position object, the call returns its
  azimuth and elevation.  The effects of the call are then exactly: the session check, two
  runs of the position script and one run of the authentication script with its time stamp.
\<close>

theorem get_degree_pos_retry:
  assumes "cc_session_id c = Some sid" and "sid \<noteq> []"
    and "\<not> float_gt (float_sub (clock env (length w)) (last_auth_time c)) (SESSION_TIMEOUT c)"
    and "subprocess env (length w + 1) = Exited rc1 out1 err1" and "rc1 \<noteq> 0"
    and "subprocess env (length w + 2) = Exited 0 out2 err2" and "strip out2 \<noteq> []"
  shows "(\<exists>r. get_degree_pos env (c, w) =
            (r, c\<lparr>cc_session_id := Some (strip out2), last_auth_time := clock env (length w + 3)\<rparr>,
             w @ [EvClock,
                  EvSubprocess [GET_DEGREE c, camera_ip c, sid],
                  EvSubprocess [AUTHENTICATE_SCRIPT c, camera_ip c],
                  EvClock,
                  EvSubprocess [GET_DEGREE c, camera_ip c, strip out2]]))
       \<and> (subprocess env (length w + 4) = Exited 0 out3 err3 \<and>
          find_char out3 (CHR ''{'') = Some i \<and>
          json_loads env (drop i out3) = Some (JObj kvs) \<and>
          map_of kvs ''PTAzimuthElevationGet'' = Some (JObj pt) \<and>
          map_of pt ''Azimuth'' = Some azimuth \<and> map_of pt ''Elevation'' = Some elevation \<longrightarrow>
          fst (get_degree_pos env (c, w)) = ReturnsPair azimuth elevation)"
proof -
  let ?c2 = "c\<lparr>cc_session_id := Some (strip out2), last_auth_time := clock env (length w + 3)\<rparr>"
  let ?w1 = "w @ [EvClock]"
  let ?w2 = "?w1 @ [EvSubprocess [GET_DEGREE c, camera_ip c, sid]]"
  let ?w4 = "?w2 @ [EvSubprocess [AUTHENTICATE_SCRIPT c, camera_ip c], EvClock]"
  let ?w5 = "?w4 @ [EvSubprocess [GET_DEGREE c, camera_ip c, strip out2]]"
  have has: "has_session c"
    using assms(1,2) by (simp add: has_session_def)
  have init: "cc_authenticate env False (c, w) = (True, c, ?w1)"
    using cc_authenticate_fresh [OF has assms(3)] .
  have re: "cc_authenticate env True (c, ?w2) = (True, ?c2, ?w4)"
    using cc_authenticate_forced_ok [of env ?w2 out2 err2 c] assms(6,7)
    by (simp add: eval_nat_numeral)
  have first: "get_degree_attempts env [0, 1] (c, ?w1) = get_degree_attempts env [1] (?c2, ?w4)"
    using assms(1,4,5) re by (simp add: Let_def eval_nat_numeral)
  have pos: "length ?w4 = length w + 4" by simp
  have second: "get_degree_attempts env [1] (?c2, ?w4) =
     (case subprocess env (length w + 4) of
        ProcRaises x \<Rightarrow> (ReturnsPair JNull JNull, ?c2, ?w5)
      | Exited returncode output_str err \<Rightarrow>
          if returncode \<noteq> 0 then (ReturnsPair JNull JNull, ?c2, ?w5)
          else (case find_char output_str (CHR ''{'') of
                  None \<Rightarrow> (ReturnsNone, ?c2, ?w5)
                | Some json_start_index \<Rightarrow> (parse_position env output_str json_start_index, ?c2, ?w5)))"
    unfolding get_degree_attempts.simps pos
    by (simp add: Let_def split: proc_outcome.splits option.splits)
  have whole: "get_degree_pos env (c, w) = get_degree_attempts env [1] (?c2, ?w4)"
    unfolding get_degree_pos_def init using first by simp
  have a: "\<exists>r. get_degree_pos env (c, w) = (r, ?c2, ?w5)"
    unfolding whole second by (simp split: proc_outcome.splits option.splits)
  have b: "subprocess env (length w + 4) = Exited 0 out3 err3 \<and>
          find_char out3 (CHR ''{'') = Some i \<and>
          json_loads env (drop i out3) = Some (JObj kvs) \<and>
          map_of kvs ''PTAzimuthElevationGet'' = Some (JObj pt) \<and>
          map_of pt ''Azimuth'' = Some azimuth \<and> map_of pt ''Elevation'' = Some elevation \<longrightarrow>
          fst (get_degree_pos env (c, w)) = ReturnsPair azimuth elevation"
    unfolding whole second by (simp add: parse_position_def json_get_def)
  show ?thesis using a b by simp
qed


lemma strip_token: "strip '' tok-2 '' = ''tok-2''"
  by code_simp

lemma find_brace: "find_char position_output (CHR ''{'') = Some 0"
  by (simp add: position_output_def find_char_def)

lemma digits_500: "nat_digits 500 = ''500''"
  by code_simp

theorem get_degree_pos_retry_witness:
  "get_degree_pos (retry_env (Exited 0 position_output [])) (cam0, []) =
     (ReturnsPair (JInt 12) (JInt (- 3)),
      cam0\<lparr>cc_session_id := Some ''tok-2'', last_auth_time := whole 1060\<rparr>,
      [EvClock,
       EvSubprocess [''get_degree.sh'', ''169.254.50.183'', ''tok-1''],
       EvSubprocess [''authenticate.sh'', ''169.254.50.183''],
       EvClock,
       EvSubprocess [''get_degree.sh'', ''169.254.50.183'', ''tok-2'']])"
proof -
  let ?env = "retry_env (Exited 0 position_output [])"
  have sid: "cc_session_id cam0 = Some ''tok-1''" "''tok-1'' \<noteq> []"
    by (simp_all add: cam0_def)
  have fresh: "\<not> float_gt (float_sub (clock ?env (length ([] :: world))) (last_auth_time cam0))
                  (SESSION_TIMEOUT cam0)"
    by (simp add: cam0_def retry_env_def whole_values small_differences signed_at_def)
  have first: "subprocess ?env (length ([] :: world) + 1) = Exited 1 [] ''session expired''" "(1 :: int) \<noteq> 0"
    by (simp_all add: retry_env_def)
  have reauth: "subprocess ?env (length ([] :: world) + 2) = Exited 0 '' tok-2 '' []" "strip '' tok-2 '' \<noteq> []"
    by (simp_all add: retry_env_def strip_token)
  have second: "subprocess ?env (length ([] :: world) + 4) = Exited 0 position_output [] \<and>
          find_char position_output (CHR ''{'') = Some 0 \<and>
          json_loads ?env (drop 0 position_output) =
            Some (JObj [(''PTAzimuthElevationGet'', JObj [(''Azimuth'', JInt 12), (''Elevation'', JInt (- 3))])]) \<and>
          map_of [(''PTAzimuthElevationGet'', JObj [(''Azimuth'', JInt 12), (''Elevation'', JInt (- 3))])]
            ''PTAzimuthElevationGet'' = Some (JObj [(''Azimuth'', JInt 12), (''Elevation'', JInt (- 3))]) \<and>
          map_of [(''Azimuth'', JInt 12), (''Elevation'', JInt (- 3))] ''Azimuth'' = Some (JInt 12) \<and>
          map_of [(''Azimuth'', JInt 12), (''Elevation'', JInt (- 3))] ''Elevation'' = Some (JInt (- 3))"
    by (simp add: retry_env_def find_brace position_json_def)
  note inst = get_degree_pos_retry [OF sid fresh first reauth]
  from inst [THEN conjunct1] obtain r where
    r: "get_degree_pos ?env (cam0, []) =
          (r, cam0\<lparr>cc_session_id := Some (strip '' tok-2 ''), last_auth_time := clock ?env (length ([] :: world) + 3)\<rparr>,
           [] @ [EvClock,
                  EvSubprocess [GET_DEGREE cam0, camera_ip cam0, ''tok-1''],
                  EvSubprocess [AUTHENTICATE_SCRIPT cam0, camera_ip cam0],
                  EvClock,
                  EvSubprocess [GET_DEGREE cam0, camera_ip cam0, strip '' tok-2 '']])"
    by blast
  from inst [THEN conjunct2, rule_format, OF second] r
  have "r = ReturnsPair (JInt 12) (JInt (- 3))" by simp
  with r show ?thesis
    by (simp add: strip_token retry_env_def cam0_def FLIR2_IP_def)
qed

text \<open>
  C1, as stated, fails for the HTTP backend: with a valid session, a request that the
  camera answers with status 500 makes \<^verbatim>\<open>execute\<close> raise at once.  The effects are the
  session check and one request: no reauthentication and no second request.
\<close>

theorem dispatch_retry_counterexample:
  "execute http_error_env ''get_position'' [] (api0, []) =
     (Inl (RuntimeError ''HTTP error 500 from camera: Internal Server Error''),
      api0,
      [EvClock,
       EvRequest ''http://169.254.50.183:80/Nexus.cgi''
         [(''session'', JStr ''tok-1''), (''action'', JStr ''PTAzimuthElevationGet''),
          (''tokenoverride'', JStr ''1''), (''_'', JStr ''0'')]])"
proof -
  have auth: "authenticate http_error_env False (api0, []) = (Inr True, api0, [EvClock])"
    by (simp add: authenticate_def session_fresh_def session_expired_def api0_def
          http_error_env_def truthy_json_def whole_values small_differences signed_at_def)
  have cmd: "load_command ''get_position'' =
     Inr \<lparr>pc_name = ''get_position'', pc_action = ''PTAzimuthElevationGet'',
          pc_description = ''Retrieve the current azimuth/elevation angles.'',
          pc_static_params = [], pc_param_specs = []\<rparr>"
    by (simp add: load_command_def CAMERA_COMMANDS_def)
  have sid: "session_id api0 = JStr ''tok-1''" "request_timeout api0 = whole 5"
    by (simp_all add: api0_def)
  show ?thesis
    unfolding execute_def auth cmd
    by (simp add: execute_resolve_def build_query_def dict_update_def TOKEN_OVERRIDE_PARAMS_def
          base_url_api0 issue_request_def http_error_env_def digits_500 sid)
qed

text \<open>
  C2.  Whenever the session check of a dispatch succeeds, the first run of the command
  script exits with a non-zero status, the forced reauthentication succeeds and the second
  run exits with a non-zero status again, the dispatch fails (\<^verbatim>\<open>False\<close> from
  \<^verbatim>\<open>move_camera_to_absolute_pos\<close>, \<^verbatim>\<open>(None, None)\<close> from \<^verbatim>\<open>get_degree_pos\<close>) and its
  effects after the session check are exactly two runs of the command script with one run
  of the authentication script between them: there is no third run.
\<close>

theorem double_failure:
  assumes "cc_authenticate env False (c, w) = (True, c1, w1)"
    and "cc_session_id c1 = Some sid"
    and "fmt_2f target_az = Some a" and "fmt_2f target_el = Some b"
    and "fmt_2f speed_az = Some x" and "fmt_2f speed_el = Some y"
    and "subprocess env (length w1) = Exited rc1 out1 err1" and "rc1 \<noteq> 0"
    and "subprocess env (length w1 + 1) = Exited 0 out2 err2" and "strip out2 \<noteq> []"
    and "subprocess env (length w1 + 3) = Exited rc3 out3 err3" and "rc3 \<noteq> 0"
  shows "move_camera_to_absolute_pos env target_az target_el speed_az speed_el (c, w) =
           (Some False,
            c1\<lparr>cc_session_id := Some (strip out2), last_auth_time := clock env (length w1 + 2)\<rparr>,
            w1 @ [EvSubprocess [MOVE_SCRIPT c1, camera_ip c1, sid, a, b, x, y],
                  EvSubprocess [AUTHENTICATE_SCRIPT c1, camera_ip c1],
                  EvClock,
                  EvSubprocess [MOVE_SCRIPT c1, camera_ip c1, strip out2, a, b, x, y]])
       \<and> get_degree_pos env (c, w) =
           (ReturnsPair JNull JNull,
            c1\<lparr>cc_session_id := Some (strip out2), last_auth_time := clock env (length w1 + 2)\<rparr>,
            w1 @ [EvSubprocess [GET_DEGREE c1, camera_ip c1, sid],
                  EvSubprocess [AUTHENTICATE_SCRIPT c1, camera_ip c1],
                  EvClock,
                  EvSubprocess [GET_DEGREE c1, camera_ip c1, strip out2]])"
proof -
  let ?c2 = "c1\<lparr>cc_session_id := Some (strip out2), last_auth_time := clock env (length w1 + 2)\<rparr>"
  let ?m1 = "[MOVE_SCRIPT c1, camera_ip c1, sid, a, b, x, y]"
  let ?m2 = "[MOVE_SCRIPT c1, camera_ip c1, strip out2, a, b, x, y]"
  let ?g1 = "[GET_DEGREE c1, camera_ip c1, sid]"
  let ?g2 = "[GET_DEGREE c1, camera_ip c1, strip out2]"
  let ?auth = "EvSubprocess [AUTHENTICATE_SCRIPT c1, camera_ip c1]"
  have cmd1: "move_command c1 target_az target_el speed_az speed_el = Some ?m1"
    using assms(2-6) by (simp add: move_command_def)
  have cmd2: "move_command ?c2 target_az target_el speed_az speed_el = Some ?m2"
    using assms(3-6) by (simp add: move_command_def)
  have re_m: "cc_authenticate env True (c1, w1 @ [EvSubprocess ?m1]) =
                (True, ?c2, w1 @ [EvSubprocess ?m1, ?auth, EvClock])"
    using cc_authenticate_forced_ok [of env "w1 @ [EvSubprocess ?m1]" out2 err2 c1] assms(9,10)
    by (simp add: eval_nat_numeral)
  have re_g: "cc_authenticate env True (c1, w1 @ [EvSubprocess ?g1]) =
                (True, ?c2, w1 @ [EvSubprocess ?g1, ?auth, EvClock])"
    using cc_authenticate_forced_ok [of env "w1 @ [EvSubprocess ?g1]" out2 err2 c1] assms(9,10)
    by (simp add: eval_nat_numeral)
  have m: "move_attempts env target_az target_el speed_az speed_el [0, 1] (c1, w1) =
             (Some False, ?c2, w1 @ [EvSubprocess ?m1, ?auth, EvClock, EvSubprocess ?m2])"
    using cmd1 cmd2 re_m assms(7,8,11,12) by (simp add: Let_def eval_nat_numeral)
  have g: "get_degree_attempts env [0, 1] (c1, w1) =
             (ReturnsPair JNull JNull, ?c2, w1 @ [EvSubprocess ?g1, ?auth, EvClock, EvSubprocess ?g2])"
    using re_g assms(2,7,8,11,12) by (simp add: Let_def eval_nat_numeral)
  show ?thesis
    unfolding move_camera_to_absolute_pos_def get_degree_pos_def assms(1) using m g by simp
qed

text \<open>
  C10.  If the session check of \<^verbatim>\<open>get_degree_pos\<close> succeeds and the position script exits
  with status 0 twice with no brace in its output, the loop ends through its
  \<^verbatim>\<open>continue\<close> branch both times and the function returns the single value \<^verbatim>\<open>None\<close>, not
  a pair; the two runs follow each other with the same token, with no reauthentication
  between them, and the session is as the session check left it.
\<close>

theorem no_json_returns_none:
  assumes "cc_authenticate env False (c, w) = (True, c1, w1)"
    and "cc_session_id c1 = Some sid"
    and "subprocess env (length w1) = Exited 0 out1 err1" and "find_char out1 (CHR ''{'') = None"
    and "subprocess env (length w1 + 1) = Exited 0 out2 err2" and "find_char out2 (CHR ''{'') = None"
  shows "get_degree_pos env (c, w) =
           (ReturnsNone, c1,
            w1 @ [EvSubprocess [GET_DEGREE c1, camera_ip c1, sid],
                  EvSubprocess [GET_DEGREE c1, camera_ip c1, sid]])
       \<and> (\<forall>azimuth elevation. fst (get_degree_pos env (c, w)) \<noteq> ReturnsPair azimuth elevation)"
proof -
  have "get_degree_attempts env [0, 1] (c1, w1) =
          (ReturnsNone, c1,
           w1 @ [EvSubprocess [GET_DEGREE c1, camera_ip c1, sid],
                 EvSubprocess [GET_DEGREE c1, camera_ip c1, sid]])"
    using assms(2-6) by (simp add: Let_def)
  then show ?thesis
    unfolding get_degree_pos_def assms(1) by simp
qed


lemma fmt_two: "fmt_2f (PyFloat two) = Some ''2.00''"
  by code_simp

lemma fmt_minus_three: "fmt_2f (PyInt (- 3)) = Some ''-3.00''"
  by code_simp

lemma fmt_180: "fmt_2f (PyInt 180) = Some ''180.00''"
  by code_simp

lemma cam0_fresh:
  "cc_authenticate (retry_env second) False (cam0, []) = (True, cam0, [EvClock])"
  "cc_authenticate (script_env outcome) False (cam0, []) = (True, cam0, [EvClock])"
  using cc_authenticate_fresh [of cam0 "retry_env second" "[]"]
    cc_authenticate_fresh [of cam0 "script_env outcome" "[]"]
  by (simp_all add: cam0_def has_session_def retry_env_def script_env_def whole_values
        small_differences signed_at_def)

theorem double_failure_witness:
  "move_camera_to_absolute_pos (retry_env (Exited 1 [] ''busy''))
     (PyFloat two) (PyInt (- 3)) (PyInt 180) (PyInt 180) (cam0, []) =
     (Some False,
      cam0\<lparr>cc_session_id := Some ''tok-2'', last_auth_time := whole 1060\<rparr>,
      [EvClock,
       EvSubprocess [''move_to_pos.sh'', ''169.254.50.183'', ''tok-1'', ''2.00'', ''-3.00'', ''180.00'', ''180.00''],
       EvSubprocess [''authenticate.sh'', ''169.254.50.183''],
       EvClock,
       EvSubprocess [''move_to_pos.sh'', ''169.254.50.183'', ''tok-2'', ''2.00'', ''-3.00'', ''180.00'', ''180.00'']])
 \<and> get_degree_pos (retry_env (Exited 1 [] ''busy'')) (cam0, []) =
     (ReturnsPair JNull JNull,
      cam0\<lparr>cc_session_id := Some ''tok-2'', last_auth_time := whole 1060\<rparr>,
      [EvClock,
       EvSubprocess [''get_degree.sh'', ''169.254.50.183'', ''tok-1''],
       EvSubprocess [''authenticate.sh'', ''169.254.50.183''],
       EvClock,
       EvSubprocess [''get_degree.sh'', ''169.254.50.183'', ''tok-2'']])"
proof -
  let ?env = "retry_env (Exited 1 [] ''busy'')"
  have sid: "cc_session_id cam0 = Some ''tok-1''"
    by (simp add: cam0_def)
  have first: "subprocess ?env (length [EvClock]) = Exited 1 [] ''session expired''" "(1 :: int) \<noteq> 0"
    by (simp_all add: retry_env_def)
  have reauth: "subprocess ?env (length [EvClock] + 1) = Exited 0 '' tok-2 '' []" "strip '' tok-2 '' \<noteq> []"
    by (simp_all add: retry_env_def strip_token)
  have second: "subprocess ?env (length [EvClock] + 3) = Exited 1 [] ''busy''" "(1 :: int) \<noteq> 0"
    by (simp_all add: retry_env_def)
  show ?thesis
    using double_failure [OF cam0_fresh(1) sid fmt_two fmt_minus_three fmt_180 fmt_180
        first reauth second]
    by (simp add: strip_token retry_env_def cam0_def FLIR2_IP_def)
qed

theorem no_json_returns_none_witness:
  "get_degree_pos (script_env (Exited 0 ''no position available'' [])) (cam0, []) =
     (ReturnsNone, cam0,
      [EvClock,
       EvSubprocess [''get_degree.sh'', ''169.254.50.183'', ''tok-1''],
       EvSubprocess [''get_degree.sh'', ''169.254.50.183'', ''tok-1'']])"
proof -
  let ?env = "script_env (Exited 0 ''no position available'' [])"
  have sid: "cc_session_id cam0 = Some ''tok-1''"
    by (simp add: cam0_def)
  have run1: "subprocess ?env (length [EvClock]) = Exited 0 ''no position available'' []"
    and run2: "subprocess ?env (length [EvClock] + 1) = Exited 0 ''no position available'' []"
    by (simp_all add: script_env_def)
  have nobrace: "find_char ''no position available'' (CHR ''{'') = None"
    by (simp add: find_char_def)
  show ?thesis
    using no_json_returns_none [OF cam0_fresh(2) sid run1 nobrace run2 nobrace]
    by (simp add: cam0_def FLIR2_IP_def)
qed

end
